theory Spec2Isabelle
  imports Main "HOL-Library.Product_Lexorder" "HOL-Library.List_Lexorder" "HOL-Library.Char_ord"
begin

section \<open>Data model\<close>

text \<open>
  The scheduler of \<^verbatim>\<open>src/classes\<close> works on three dictionaries of mutable objects:
  teachers, courses and modules.  Python integers are \<open>int\<close>.  Every exception the
  source can raise is a value of \<open>error\<close>, and a function that can raise returns
  \<open>error + 'a\<close>; an exception ends the run (\<^verbatim>\<open>main\<close> catches none), so no state comes
  with it.

  Objects are shared by reference (a \<^verbatim>\<open>Course\<close> sits in the \<^verbatim>\<open>courses\<close> dictionary, in the
  \<^verbatim>\<open>unassigned\<close> work list and in \<^verbatim>\<open>Module.courses\<close> at once), so the model keeps an
  explicit store.  A reference to a course is the name under which the dictionary
  holds it (\<^verbatim>\<open>courses[course_name] = Course(course_name)\<close> in \<^verbatim>\<open>data_loaders.py\<close>), which
  is also the \<^verbatim>\<open>name\<close> of the object; a reference to a teacher is the teacher's name and
  a reference to a module is its number.  The dictionaries \<^verbatim>\<open>courses\<close> and \<^verbatim>\<open>modules\<close>, which
  the code enumerates, are each the list of the keys, in insertion order, together
  with the store behind them; a method of an object takes the scheduler's state and
  the reference in place of \<^verbatim>\<open>self\<close> and of the dictionaries that the scheduler passes.
  A Python \<^verbatim>\<open>set\<close> that the code iterates over (\<^verbatim>\<open>prereqs\<close>, \<^verbatim>\<open>possible_teachers\<close>) is the list
  of its elements in the order in which that set object yields them; nothing is
  assumed about this order.
\<close>

datatype error = ValueError | KeyError | RuntimeError | IndexError | TypeError | AttributeError

record teacher =
  can_teach_courses :: "string set"
  availability :: "int list"
  capacity_total :: int
  capacity_left :: int
  teaches :: "(string \<times> int) list"
  assigned_modules :: "int set"

record course =
  part_of_chain :: bool
  min_layer :: int
  prereqs :: "string list"
  possible_teachers :: "string list"
  module_assigned :: "int option"
  teacher_assigned :: "string option"
  layer_assigned :: "int option"
  is_celebrity :: bool

record module =
  max_capacity :: int
  mcourses :: "string list"
  chain_layers :: "int \<rightharpoonup> int"
  has_celebrity_course :: bool

record scheduler =
  teachers :: "string \<rightharpoonup> teacher"
  course_keys :: "string list"
  courses :: "string \<Rightarrow> course"
  module_keys :: "int list"
  modules :: "int \<Rightarrow> module"

section \<open>Teacher\<close>

text \<open>\<^verbatim>\<open>xs[i]\<close> on a Python list: a negative index counts from the end, an index out of
  range raises.\<close>

definition py_index :: "'a list \<Rightarrow> int \<Rightarrow> error + 'a" where
  "py_index xs i =
     (let j = (if i < 0 then i + int (length xs) else i)
      in if j < 0 \<or> int (length xs) \<le> j then Inl IndexError else Inr (xs ! nat j))"

definition is_available_for :: "teacher \<Rightarrow> string \<Rightarrow> int \<Rightarrow> bool \<Rightarrow> error + bool" where
  "is_available_for t course_name mnum strict =
     (if capacity_left t < 1 then Inr False
      else if mnum \<in> assigned_modules t then Inr False
      else (case py_index (availability t) (mnum - 1) of
              Inl e \<Rightarrow> Inl e
            | Inr v \<Rightarrow>
                if v = - 1 then Inr False
                else if strict \<and> v = 0 then Inr False
                else if course_name \<notin> can_teach_courses t then Inr False
                else Inr True))"

text \<open>\<^verbatim>\<open>availability_score\<close> falls off its end, returning Python's \<^verbatim>\<open>None\<close>, for a value
  other than 1 and 0.\<close>

definition availability_score :: "teacher \<Rightarrow> int \<Rightarrow> error + int option" where
  "availability_score t mnum =
     (case py_index (availability t) (mnum - 1) of
        Inl e \<Rightarrow> Inl e
      | Inr v \<Rightarrow> if v = 1 then Inr (Some 0) else if v = 0 then Inr (Some 1) else Inr None)"

definition assign_to :: "teacher \<Rightarrow> string \<Rightarrow> int \<Rightarrow> error + (bool \<times> teacher)" where
  "assign_to t course_name mnum =
     (case is_available_for t course_name mnum False of
        Inl e \<Rightarrow> Inl e
      | Inr False \<Rightarrow> Inr (False, t)
      | Inr True \<Rightarrow>
          Inr (True, t\<lparr>teaches := teaches t @ [(course_name, mnum)],
                       assigned_modules := insert mnum (assigned_modules t),
                       capacity_left := capacity_left t - 1\<rparr>))"

section \<open>Course\<close>

text \<open>\<^verbatim>\<open>courses.get(name)\<close>.\<close>

definition courses_get :: "scheduler \<Rightarrow> string \<Rightarrow> course option" where
  "courses_get s n = (if n \<in> set (course_keys s) then Some (courses s n) else None)"

fun all_prereqs_assigned_loop :: "scheduler \<Rightarrow> string list \<Rightarrow> error + bool" where
  "all_prereqs_assigned_loop s [] = Inr True"
| "all_prereqs_assigned_loop s (prereq_name # rest) =
     (case courses_get s prereq_name of
        None \<Rightarrow> Inl KeyError
      | Some prereq \<Rightarrow>
          if module_assigned prereq = None then Inr False
          else all_prereqs_assigned_loop s rest)"

definition all_prereqs_assigned :: "scheduler \<Rightarrow> string \<Rightarrow> error + bool" where
  "all_prereqs_assigned s cn = all_prereqs_assigned_loop s (prereqs (courses s cn))"

fun get_latest_loop :: "scheduler \<Rightarrow> int \<Rightarrow> string list \<Rightarrow> error + int" where
  "get_latest_loop s latest [] = Inr latest"
| "get_latest_loop s latest (prereq_name # rest) =
     (if prereq_name \<notin> set (course_keys s) then Inl KeyError
      else (case module_assigned (courses s prereq_name) of
              None \<Rightarrow> Inl ValueError
            | Some prereq_module \<Rightarrow> get_latest_loop s (max latest prereq_module) rest))"

definition get_latest_assigned_prereq :: "scheduler \<Rightarrow> string \<Rightarrow> error + int" where
  "get_latest_assigned_prereq s cn = get_latest_loop s 0 (prereqs (courses s cn))"

text \<open>In \<^verbatim>\<open>has_teachers_for_module\<close> a teacher name that does not resolve gives \<^verbatim>\<open>None\<close>,
  and the method call on it raises \<^verbatim>\<open>AttributeError\<close>.\<close>

fun has_teachers_loop :: "scheduler \<Rightarrow> string \<Rightarrow> int \<Rightarrow> bool \<Rightarrow> string list \<Rightarrow> error + bool" where
  "has_teachers_loop s cn mnum strict [] = Inr False"
| "has_teachers_loop s cn mnum strict (teacher_name # rest) =
     (case teachers s teacher_name of
        None \<Rightarrow> Inl AttributeError
      | Some t \<Rightarrow>
          (case is_available_for t cn mnum strict of
             Inl e \<Rightarrow> Inl e
           | Inr True \<Rightarrow> Inr True
           | Inr False \<Rightarrow> has_teachers_loop s cn mnum strict rest))"

definition has_teachers_for_module :: "scheduler \<Rightarrow> string \<Rightarrow> int \<Rightarrow> bool \<Rightarrow> error + bool" where
  "has_teachers_for_module s cn mnum strict =
     has_teachers_loop s cn mnum strict (possible_teachers (courses s cn))"

text \<open>The entries of \<^verbatim>\<open>available\<close>:
  \<^verbatim>\<open>(teacher_name, availability_score, specialization, capacity_left)\<close>.\<close>

type_synonym avail_entry = "string \<times> int option \<times> int \<times> int"

fun available_loop :: "scheduler \<Rightarrow> string \<Rightarrow> int \<Rightarrow> bool \<Rightarrow> string list \<Rightarrow> error + avail_entry list" where
  "available_loop s cn mnum strict [] = Inr []"
| "available_loop s cn mnum strict (teacher_name # rest) =
     (case teachers s teacher_name of
        None \<Rightarrow> Inl KeyError
      | Some t \<Rightarrow>
          (case is_available_for t cn mnum strict of
             Inl e \<Rightarrow> Inl e
           | Inr False \<Rightarrow> available_loop s cn mnum strict rest
           | Inr True \<Rightarrow>
               (case availability_score t mnum of
                  Inl e \<Rightarrow> Inl e
                | Inr sc \<Rightarrow>
                    (case available_loop s cn mnum strict rest of
                       Inl e \<Rightarrow> Inl e
                     | Inr av \<Rightarrow>
                         Inr ((teacher_name, sc, int (card (can_teach_courses t)), capacity_left t) # av)))))"

text \<open>The key \<^verbatim>\<open>lambda t: (t[1], t[2], -t[3])\<close>, and Python's \<^verbatim>\<open><\<close> on two such
  tuples: the first components that differ decide, and comparing \<^verbatim>\<open>None\<close> with an
  integer raises \<^verbatim>\<open>TypeError\<close>.\<close>

fun entry_key :: "avail_entry \<Rightarrow> int option \<times> int \<times> int" where
  "entry_key (tn, sc, sp, cap) = (sc, sp, - cap)"

fun key_lt :: "int option \<times> int \<times> int \<Rightarrow> int option \<times> int \<times> int \<Rightarrow> error + bool" where
  "key_lt (a1, b1, c1) (a2, b2, c2) =
     (if a1 \<noteq> a2 then
        (case (a1, a2) of
           (Some x, Some y) \<Rightarrow> Inr (x < y)
         | _ \<Rightarrow> Inl TypeError)
      else if b1 \<noteq> b2 then Inr (b1 < b2)
      else Inr (c1 < c2))"

text \<open>\<^verbatim>\<open>min(available, key=...)\<close>: the running minimum is replaced only by an entry whose
  key is strictly smaller.\<close>

fun min_loop :: "avail_entry \<Rightarrow> avail_entry list \<Rightarrow> error + avail_entry" where
  "min_loop best [] = Inr best"
| "min_loop best (x # xs) =
     (case key_lt (entry_key x) (entry_key best) of
        Inl e \<Rightarrow> Inl e
      | Inr b \<Rightarrow> min_loop (if b then x else best) xs)"

definition get_teacher_for_module :: "scheduler \<Rightarrow> string \<Rightarrow> int \<Rightarrow> bool \<Rightarrow> error + string option" where
  "get_teacher_for_module s cn mnum strict =
     (case available_loop s cn mnum strict (possible_teachers (courses s cn)) of
        Inl e \<Rightarrow> Inl e
      | Inr [] \<Rightarrow> Inr None
      | Inr (x # xs) \<Rightarrow>
          (case min_loop x xs of
             Inl e \<Rightarrow> Inl e
           | Inr best \<Rightarrow> Inr (Some (fst best))))"

text \<open>The loop of \<^verbatim>\<open>can_be_assigned_to_module\<close> over the prerequisites.\<close>

fun prereqs_before :: "scheduler \<Rightarrow> int \<Rightarrow> string list \<Rightarrow> error + bool" where
  "prereqs_before s absolute_current [] = Inr True"
| "prereqs_before s absolute_current (prereq_name # rest) =
     (if prereq_name \<notin> set (course_keys s) then Inl KeyError
      else (case layer_assigned (courses s prereq_name) of
              None \<Rightarrow> Inr False
            | Some pl \<Rightarrow>
                (case module_assigned (courses s prereq_name) of
                   None \<Rightarrow> Inl TypeError
                 | Some pm \<Rightarrow>
                     if absolute_current \<le> pl * 14 + pm then Inr False
                     else prereqs_before s absolute_current rest)))"

definition can_be_assigned_to_module ::
    "scheduler \<Rightarrow> string \<Rightarrow> int \<Rightarrow> int \<Rightarrow> bool \<Rightarrow> error + bool" where
  "can_be_assigned_to_module s cn mnum layer strict =
     (if module_assigned (courses s cn) \<noteq> None then Inr False
      else if layer < min_layer (courses s cn) then Inr False
      else (case all_prereqs_assigned s cn of
              Inl e \<Rightarrow> Inl e
            | Inr False \<Rightarrow> Inr False
            | Inr True \<Rightarrow>
                (case prereqs_before s (layer * 14 + mnum) (prereqs (courses s cn)) of
                   Inl e \<Rightarrow> Inl e
                 | Inr False \<Rightarrow> Inr False
                 | Inr True \<Rightarrow>
                     (case has_teachers_for_module s cn mnum strict of
                        Inl e \<Rightarrow> Inl e
                      | Inr False \<Rightarrow> Inr False
                      | Inr True \<Rightarrow> Inr True))))"

definition assign_to_module ::
    "scheduler \<Rightarrow> string \<Rightarrow> int \<Rightarrow> int \<Rightarrow> bool \<Rightarrow> error + (bool \<times> scheduler)" where
  "assign_to_module s cn mnum layer strict =
     (case can_be_assigned_to_module s cn mnum layer strict of
        Inl e \<Rightarrow> Inl e
      | Inr False \<Rightarrow> Inr (False, s)
      | Inr True \<Rightarrow>
          (case get_teacher_for_module s cn mnum strict of
             Inl e \<Rightarrow> Inl e
           | Inr None \<Rightarrow> Inr (False, s)
           | Inr (Some chosen_teacher) \<Rightarrow>
               (case teachers s chosen_teacher of
                  None \<Rightarrow> Inl KeyError
                | Some t \<Rightarrow>
                    (case assign_to t cn mnum of
                       Inl e \<Rightarrow> Inl e
                     | Inr (False, t') \<Rightarrow> Inr (False, s)
                     | Inr (True, t') \<Rightarrow>
                         Inr (True,
                           s\<lparr>teachers := (teachers s)(chosen_teacher \<mapsto> t'),
                              courses := (courses s)(cn :=
                                (courses s cn)\<lparr>module_assigned := Some mnum,
                                                 layer_assigned := Some layer,
                                                 teacher_assigned := Some chosen_teacher\<rparr>)\<rparr>)))))"

section \<open>Module\<close>

definition total_count :: "module \<Rightarrow> int" where
  "total_count m = int (length (mcourses m))"

definition chain_count_in_layer :: "module \<Rightarrow> int \<Rightarrow> int" where
  "chain_count_in_layer m layer = (case chain_layers m layer of None \<Rightarrow> 0 | Some n \<Rightarrow> n)"

definition can_accept :: "scheduler \<Rightarrow> int \<Rightarrow> string \<Rightarrow> int \<Rightarrow> bool \<Rightarrow> bool" where
  "can_accept s mnum cn layer celebrity =
     (let m = modules s mnum in
      if total_count m \<ge> max_capacity m then False
      else if part_of_chain (courses s cn) \<and> has_celebrity_course m then False
      else if part_of_chain (courses s cn) \<and> chain_count_in_layer m layer \<ge> 1 then False
      else if celebrity \<and> has_celebrity_course m then False
      else if celebrity \<and> list_ex (\<lambda>c. part_of_chain (courses s c)) (mcourses m) then False
      else True)"

definition add_course :: "scheduler \<Rightarrow> int \<Rightarrow> string \<Rightarrow> int \<Rightarrow> bool \<Rightarrow> error + scheduler" where
  "add_course s mnum cn layer celebrity =
     (let m = modules s mnum in
      if celebrity \<and> has_celebrity_course m then Inl ValueError
      else if celebrity \<and> list_ex (\<lambda>c. part_of_chain (courses s c)) (mcourses m) then Inl ValueError
      else
        (let m1 = (if celebrity then m\<lparr>has_celebrity_course := True\<rparr> else m);
             m2 = m1\<lparr>mcourses := mcourses m1 @ [cn]\<rparr>;
             m3 = (if part_of_chain (courses s cn)
                   then m2\<lparr>chain_layers := (chain_layers m2)(layer \<mapsto> chain_count_in_layer m2 layer + 1)\<rparr>
                   else m2)
         in Inr (s\<lparr>modules := (modules s)(mnum := m3)\<rparr>)))"

section \<open>Scheduler: pass 1\<close>

text \<open>\<^verbatim>\<open>str.strip()\<close>, on the characters below 256: the white space of Python's
  \<^verbatim>\<open>str.isspace\<close> in that range.\<close>

definition is_space :: "char \<Rightarrow> bool" where
  "is_space c \<longleftrightarrow> c \<in> {CHR 0x09, CHR 0x0A, CHR 0x0B, CHR 0x0C, CHR 0x0D,
                        CHR 0x1C, CHR 0x1D, CHR 0x1E, CHR 0x1F, CHR 0x20, CHR 0x85, CHR 0xA0}"

definition strip :: "string \<Rightarrow> string" where
  "strip x = rev (dropWhile is_space (rev (dropWhile is_space x)))"

definition pass1_row :: "scheduler \<Rightarrow> string \<times> int \<times> string \<Rightarrow> error + scheduler" where
  "pass1_row s row =
     (case row of (course_name0, module_num, teacher_name0) \<Rightarrow>
      let course_name = strip course_name0; teacher_name = strip teacher_name0 in
      if course_name = [] \<or> teacher_name = [] then Inl ValueError
      else if module_num \<notin> set (module_keys s) then Inl ValueError
      else if course_name \<notin> set (course_keys s) then Inl KeyError
      else (case teachers s teacher_name of
              None \<Rightarrow> Inl KeyError
            | Some t \<Rightarrow>
                if module_assigned (courses s course_name) \<noteq> None then Inl ValueError
                else if teacher_name \<notin> set (possible_teachers (courses s course_name)) then Inl ValueError
                else (case is_available_for t course_name module_num False of
                        Inl e \<Rightarrow> Inl e
                      | Inr False \<Rightarrow> Inl ValueError
                      | Inr True \<Rightarrow>
                          if \<not> can_accept s module_num course_name 0 True then Inl ValueError
                          else (case assign_to t course_name module_num of
                                  Inl e \<Rightarrow> Inl e
                                | Inr (False, t') \<Rightarrow> Inl ValueError
                                | Inr (True, t') \<Rightarrow>
                                    add_course
                                      (s\<lparr>teachers := (teachers s)(teacher_name \<mapsto> t'),
                                         courses := (courses s)(course_name :=
                                           (courses s course_name)\<lparr>module_assigned := Some module_num,
                                                                     teacher_assigned := Some teacher_name,
                                                                     is_celebrity := True\<rparr>)\<rparr>)
                                      module_num course_name 0 True))))"

fun pass1_loop :: "scheduler \<Rightarrow> int \<Rightarrow> (string \<times> int \<times> string) list \<Rightarrow> error + (int \<times> scheduler)" where
  "pass1_loop s assigned [] = Inr (assigned, s)"
| "pass1_loop s assigned (row # rest) =
     (case pass1_row s row of
        Inl e \<Rightarrow> Inl e
      | Inr s' \<Rightarrow> pass1_loop s' (assigned + 1) rest)"

definition pass1_celebrity :: "scheduler \<Rightarrow> (string \<times> int \<times> string) list \<Rightarrow> error + (int \<times> scheduler)" where
  "pass1_celebrity s celebrity_courses = pass1_loop s 0 celebrity_courses"

section \<open>Scheduler: pass 2\<close>

definition is_ready :: "scheduler \<Rightarrow> string \<Rightarrow> int \<Rightarrow> error + bool" where
  "is_ready s cn layer =
     (if \<not> part_of_chain (courses s cn) then Inr False
      else if module_assigned (courses s cn) \<noteq> None then Inr False
      else if layer < min_layer (courses s cn) then Inr False
      else all_prereqs_assigned s cn)"

definition fits_in_module :: "scheduler \<Rightarrow> string \<Rightarrow> int \<Rightarrow> int \<Rightarrow> bool \<Rightarrow> error + bool" where
  "fits_in_module s cn module_num layer strict =
     (if module_num \<notin> set (module_keys s) then Inl KeyError
      else if has_celebrity_course (modules s module_num) then Inr False
      else if \<not> can_accept s module_num cn layer False then Inr False
      else can_be_assigned_to_module s cn module_num layer strict)"

fun feasible_loop :: "scheduler \<Rightarrow> string \<Rightarrow> int \<Rightarrow> bool \<Rightarrow> int \<Rightarrow> int list \<Rightarrow> error + int" where
  "feasible_loop s cn layer strict cnt [] = Inr cnt"
| "feasible_loop s cn layer strict cnt (m # ms) =
     (case fits_in_module s cn m layer strict of
        Inl e \<Rightarrow> Inl e
      | Inr b \<Rightarrow> feasible_loop s cn layer strict (if b then cnt + 1 else cnt) ms)"

definition feasible_module_count :: "scheduler \<Rightarrow> string \<Rightarrow> int \<Rightarrow> bool \<Rightarrow> error + int" where
  "feasible_module_count s cn layer strict = feasible_loop s cn layer strict 0 [1..14]"

text \<open>A candidate is the tuple \<^verbatim>\<open>(mc, -latest, course.name, course)\<close>; its last component is
  the object that its third component names.\<close>

fun pass2_candidates ::
    "scheduler \<Rightarrow> int \<Rightarrow> int \<Rightarrow> bool \<Rightarrow> string list \<Rightarrow> error + (int \<times> int \<times> string) list" where
  "pass2_candidates s module_num layer strict [] = Inr []"
| "pass2_candidates s module_num layer strict (cn # rest) =
     (case is_ready s cn layer of
        Inl e \<Rightarrow> Inl e
      | Inr False \<Rightarrow> pass2_candidates s module_num layer strict rest
      | Inr True \<Rightarrow>
          (case fits_in_module s cn module_num layer strict of
             Inl e \<Rightarrow> Inl e
           | Inr False \<Rightarrow> pass2_candidates s module_num layer strict rest
           | Inr True \<Rightarrow>
               (case feasible_module_count s cn layer strict of
                  Inl e \<Rightarrow> Inl e
                | Inr mc \<Rightarrow>
                    (case (if prereqs (courses s cn) \<noteq> [] then get_latest_assigned_prereq s cn
                           else Inr 0) of
                       Inl e \<Rightarrow> Inl e
                     | Inr latest \<Rightarrow>
                         (case pass2_candidates s module_num layer strict rest of
                            Inl e \<Rightarrow> Inl e
                          | Inr cands \<Rightarrow> Inr ((mc, - latest, cn) # cands))))))"

text \<open>The state of a sweep over the modules: the scheduler's objects, the work list
  \<^verbatim>\<open>unassigned\<close>, \<^verbatim>\<open>assigned_total\<close> and the progress counter of the sweep.\<close>

type_synonym sweep_state = "scheduler \<times> string list \<times> int \<times> int"

definition pass2_module :: "bool \<Rightarrow> int \<Rightarrow> sweep_state \<Rightarrow> int \<Rightarrow> error + sweep_state" where
  "pass2_module strict layer st module_num =
     (case st of (s, unassigned, assigned_total, progress_phase) \<Rightarrow>
      if module_num \<notin> set (module_keys s) then Inl KeyError
      else if has_celebrity_course (modules s module_num) then Inr st
      else if chain_count_in_layer (modules s module_num) layer \<ge> 1 then Inr st
      else (case pass2_candidates s module_num layer strict unassigned of
              Inl e \<Rightarrow> Inl e
            | Inr [] \<Rightarrow> Inr st
            | Inr (c # cs) \<Rightarrow>
                (let chosen = snd (snd (hd (sort (c # cs)))) in
                 case assign_to_module s chosen module_num layer strict of
                   Inl e \<Rightarrow> Inl e
                 | Inr (False, s1) \<Rightarrow> Inl RuntimeError
                 | Inr (True, s1) \<Rightarrow>
                     (case add_course s1 module_num chosen layer False of
                        Inl e \<Rightarrow> Inl e
                      | Inr s2 \<Rightarrow>
                          Inr (s2, remove1 chosen unassigned, assigned_total + 1, progress_phase + 1)))))"

fun pass2_sweep :: "bool \<Rightarrow> int \<Rightarrow> sweep_state \<Rightarrow> int list \<Rightarrow> error + sweep_state" where
  "pass2_sweep strict layer st [] = Inr st"
| "pass2_sweep strict layer st (module_num # rest) =
     (case pass2_module strict layer st module_num of
        Inl e \<Rightarrow> Inl e
      | Inr st' \<Rightarrow> pass2_sweep strict layer st' rest)"

text \<open>The loop \<^verbatim>\<open>for strict in [True, False]\<close> of one layer iteration, with its
  \<^verbatim>\<open>break\<close>.  The last component of the result is \<^verbatim>\<open>progress_this_layer\<close>.\<close>

fun pass2_phases :: "int \<Rightarrow> scheduler \<times> string list \<times> int \<Rightarrow> bool list \<Rightarrow> error + sweep_state" where
  "pass2_phases layer (s, unassigned, assigned_total) [] = Inr (s, unassigned, assigned_total, 0)"
| "pass2_phases layer (s, unassigned, assigned_total) (strict # rest) =
     (case pass2_sweep strict layer (s, unassigned, assigned_total, 0) [1..14] of
        Inl e \<Rightarrow> Inl e
      | Inr (s', unassigned', assigned_total', progress_phase) \<Rightarrow>
          if progress_phase > 0 then Inr (s', unassigned', assigned_total', 0 + progress_phase)
          else pass2_phases layer (s', unassigned', assigned_total') rest)"

function pass2_loop :: "int \<Rightarrow> scheduler \<Rightarrow> string list \<Rightarrow> int \<Rightarrow> int \<Rightarrow> error + (int \<times> scheduler)" where
  "pass2_loop max_layers s unassigned assigned_total layer =
     (if unassigned = [] then Inr (assigned_total, s)
      else if layer > max_layers then Inr (assigned_total, s)
      else (case pass2_phases layer (s, unassigned, assigned_total) [True, False] of
              Inl e \<Rightarrow> Inl e
            | Inr (s', unassigned', assigned_total', progress_this_layer) \<Rightarrow>
                pass2_loop max_layers s' unassigned' assigned_total'
                  (if progress_this_layer = 0 then layer + 1 else layer)))"
  by pat_completeness auto

definition pass2_chains :: "scheduler \<Rightarrow> int \<Rightarrow> error + (int \<times> scheduler)" where
  "pass2_chains s max_layers =
     pass2_loop max_layers s
       (filter (\<lambda>cn. part_of_chain (courses s cn) \<and> module_assigned (courses s cn) = None)
          (course_keys s))
       0 0"

section \<open>Scheduler: pass 3\<close>

fun teacher_options_loop ::
    "scheduler \<Rightarrow> string \<Rightarrow> int \<Rightarrow> bool \<Rightarrow> int \<Rightarrow> string list \<Rightarrow> error + int" where
  "teacher_options_loop s cn module_num strict cnt [] = Inr cnt"
| "teacher_options_loop s cn module_num strict cnt (teacher_name # rest) =
     (case teachers s teacher_name of
        None \<Rightarrow> teacher_options_loop s cn module_num strict cnt rest
      | Some t \<Rightarrow>
          (case is_available_for t cn module_num strict of
             Inl e \<Rightarrow> Inl e
           | Inr b \<Rightarrow>
               teacher_options_loop s cn module_num strict (if b then cnt + 1 else cnt) rest))"

definition teacher_options_count :: "scheduler \<Rightarrow> string \<Rightarrow> int \<Rightarrow> bool \<Rightarrow> error + int" where
  "teacher_options_count s cn module_num strict =
     teacher_options_loop s cn module_num strict 0 (possible_teachers (courses s cn))"

fun pass3_candidates ::
    "scheduler \<Rightarrow> int \<Rightarrow> bool \<Rightarrow> string list \<Rightarrow> error + (int \<times> string) list" where
  "pass3_candidates s module_num strict [] = Inr []"
| "pass3_candidates s module_num strict (cn # rest) =
     (if \<not> can_accept s module_num cn 0 False then pass3_candidates s module_num strict rest
      else (case has_teachers_for_module s cn module_num strict of
              Inl e \<Rightarrow> Inl e
            | Inr False \<Rightarrow> pass3_candidates s module_num strict rest
            | Inr True \<Rightarrow>
                (case teacher_options_count s cn module_num strict of
                   Inl e \<Rightarrow> Inl e
                 | Inr opts \<Rightarrow>
                     (case pass3_candidates s module_num strict rest of
                        Inl e \<Rightarrow> Inl e
                      | Inr cands \<Rightarrow> Inr ((opts, cn) # cands)))))"

definition pass3_module :: "bool \<Rightarrow> sweep_state \<Rightarrow> int \<Rightarrow> error + sweep_state" where
  "pass3_module strict st module_num =
     (case st of (s, unassigned, assigned_total, progress) \<Rightarrow>
      (case pass3_candidates s module_num strict unassigned of
         Inl e \<Rightarrow> Inl e
       | Inr [] \<Rightarrow> Inr st
       | Inr (c # cs) \<Rightarrow>
           (let chosen = snd (hd (sort (c # cs))) in
            case assign_to_module s chosen module_num 0 strict of
              Inl e \<Rightarrow> Inl e
            | Inr (False, s1) \<Rightarrow> Inr st
            | Inr (True, s1) \<Rightarrow>
                (case add_course s1 module_num chosen 0 False of
                   Inl e \<Rightarrow> Inl e
                 | Inr s2 \<Rightarrow>
                     Inr (s2, remove1 chosen unassigned, assigned_total + 1, progress + 1)))))"

fun pass3_sweep :: "bool \<Rightarrow> sweep_state \<Rightarrow> int list \<Rightarrow> error + sweep_state" where
  "pass3_sweep strict st [] = Inr st"
| "pass3_sweep strict st (module_num # rest) =
     (case pass3_module strict st module_num of
        Inl e \<Rightarrow> Inl e
      | Inr st' \<Rightarrow> pass3_sweep strict st' rest)"

text \<open>\<^verbatim>\<open>sorted(self.modules.keys(), key=lambda m: (total_count, m))\<close>.\<close>

definition module_nums :: "scheduler \<Rightarrow> int list" where
  "module_nums s = sort_key (\<lambda>m. (total_count (modules s m), m)) (module_keys s)"

function pass3_while ::
    "bool \<Rightarrow> scheduler \<Rightarrow> string list \<Rightarrow> int \<Rightarrow> error + (scheduler \<times> string list \<times> int)" where
  "pass3_while strict s unassigned assigned_total =
     (if unassigned = [] then Inr (s, unassigned, assigned_total)
      else (case pass3_sweep strict (s, unassigned, assigned_total, 0) (module_nums s) of
              Inl e \<Rightarrow> Inl e
            | Inr (s', unassigned', assigned_total', progress) \<Rightarrow>
                if progress = 0 then Inr (s', unassigned', assigned_total')
                else pass3_while strict s' unassigned' assigned_total'))"
  by pat_completeness auto

fun pass3_phases :: "scheduler \<times> string list \<times> int \<Rightarrow> bool list \<Rightarrow> error + (int \<times> scheduler)" where
  "pass3_phases (s, unassigned, assigned_total) [] = Inr (assigned_total, s)"
| "pass3_phases (s, unassigned, assigned_total) (strict # rest) =
     (case pass3_while strict s unassigned assigned_total of
        Inl e \<Rightarrow> Inl e
      | Inr (s', unassigned', assigned_total') \<Rightarrow>
          if unassigned' = [] then Inr (assigned_total', s')
          else pass3_phases (s', unassigned', assigned_total') rest)"

definition pass3_solitary :: "scheduler \<Rightarrow> error + (int \<times> scheduler)" where
  "pass3_solitary s =
     pass3_phases
       (s, filter (\<lambda>cn. module_assigned (courses s cn) = None) (course_keys s), 0)
       [True, False]"

section \<open>Construction of the objects\<close>

text \<open>The constructors \<^verbatim>\<open>Teacher.__init__\<close>, \<^verbatim>\<open>Course.__init__\<close> and \<^verbatim>\<open>Module.__init__\<close>, and
  \<^verbatim>\<open>build_modules\<close> of \<^verbatim>\<open>data_loaders.py\<close>.\<close>

definition Teacher_init :: "string set \<Rightarrow> int list \<Rightarrow> int \<Rightarrow> teacher" where
  "Teacher_init can_teach avail capacity =
     \<lparr>can_teach_courses = can_teach, availability = avail, capacity_total = capacity,
      capacity_left = capacity, teaches = [], assigned_modules = {}\<rparr>"

definition Course_init :: course where
  "Course_init =
     \<lparr>part_of_chain = False, min_layer = 0, prereqs = [], possible_teachers = [],
      module_assigned = None, teacher_assigned = None, layer_assigned = None,
      is_celebrity = False\<rparr>"

definition Module_init :: "int \<Rightarrow> module" where
  "Module_init cap =
     \<lparr>max_capacity = cap, mcourses = [], chain_layers = Map.empty, has_celebrity_course = False\<rparr>"

definition build_modules_keys :: "int list" where
  "build_modules_keys = [1..14]"

definition build_modules :: "int \<Rightarrow> module" where
  "build_modules = (\<lambda>_. Module_init 9)"

section \<open>The choice of a teacher, as the specification words it\<close>

text \<open>The preference score of the specification (0 for a preferred module, 1 for an
  acceptable one; it is not asked for a forbidden module) and the tuple of preference
  score, number of courses the teacher can teach, and negated remaining capacity, by
  which \<^verbatim>\<open>get_teacher_for_module\<close> is said to choose.  Tuples are compared
  lexicographically.\<close>

definition preference_score :: "teacher \<Rightarrow> int \<Rightarrow> int" where
  "preference_score t mnum = (if availability t ! nat (mnum - 1) = 1 then 0 else 1)"

definition rank :: "teacher \<Rightarrow> int \<Rightarrow> int \<times> int \<times> int" where
  "rank t mnum = (preference_score t mnum, int (card (can_teach_courses t)), - capacity_left t)"

definition rank_of :: "scheduler \<Rightarrow> int \<Rightarrow> string \<Rightarrow> int \<times> int \<times> int" where
  "rank_of s mnum tn = (case teachers s tn of None \<Rightarrow> (0, 0, 0) | Some t \<Rightarrow> rank t mnum)"

text \<open>The possible teachers of a course that are available for a module, in the order in
  which the set \<^verbatim>\<open>possible_teachers\<close> yields them.\<close>

definition is_available_name :: "scheduler \<Rightarrow> string \<Rightarrow> int \<Rightarrow> bool \<Rightarrow> string \<Rightarrow> bool" where
  "is_available_name s cn mnum strict tn \<longleftrightarrow>
     (case teachers s tn of
        None \<Rightarrow> False
      | Some t \<Rightarrow> is_available_for t cn mnum strict = Inr True)"

definition available_names :: "scheduler \<Rightarrow> string \<Rightarrow> int \<Rightarrow> bool \<Rightarrow> string list" where
  "available_names s cn mnum strict =
     filter (is_available_name s cn mnum strict) (possible_teachers (courses s cn))"

text \<open>Teachers as the specification describes them: every name resolves, with 14
  availability values, each -1, 0 or 1.\<close>

definition well_formed_teachers :: "scheduler \<Rightarrow> string list \<Rightarrow> bool" where
  "well_formed_teachers s tns \<longleftrightarrow>
     list_all (\<lambda>tn. case teachers s tn of
                      None \<Rightarrow> False
                    | Some t \<Rightarrow> length (availability t) = 14
                               \<and> list_all (\<lambda>v. v = - 1 \<or> v = 0 \<or> v = 1) (availability t)) tns"

text \<open>The first element of \<open>b # xs\<close> whose key is minimal.\<close>

fun first_min :: "('a \<Rightarrow> 'k::linorder) \<Rightarrow> 'a \<Rightarrow> 'a list \<Rightarrow> 'a" where
  "first_min k b [] = b"
| "first_min k b (x # xs) = first_min k (if k x < k b then x else b) xs"

text \<open>The entry that \<^verbatim>\<open>get_teacher_for_module\<close> appends to \<^verbatim>\<open>available\<close> for an available
  teacher with such values.\<close>

definition entry_of :: "scheduler \<Rightarrow> int \<Rightarrow> string \<Rightarrow> avail_entry" where
  "entry_of s mnum tn =
     (case teachers s tn of
        None \<Rightarrow> (tn, None, 0, 0)
      | Some t \<Rightarrow> (tn, Some (preference_score t mnum), int (card (can_teach_courses t)),
                   capacity_left t))"

section \<open>Placements and the state between the passes\<close>

text \<open>Passes 2 and 3 change the objects only by a placement: a successful
  \<^verbatim>\<open>assign_to_module\<close> followed by \<^verbatim>\<open>add_course\<close> of the same course into the same module,
  and a chained course only into a module without a celebrity course (pass 2 skips
  such modules, pass 3 asks \<^verbatim>\<open>can_accept\<close>).  \<open>place_step L\<close> is one such placement at a
  layer of \<open>L\<close>.\<close>

inductive place_step :: "int set \<Rightarrow> scheduler \<Rightarrow> scheduler \<Rightarrow> bool" for L where
  place: "layer \<in> L \<Longrightarrow>
          (part_of_chain (courses s cn) \<longrightarrow> \<not> has_celebrity_course (modules s mnum)) \<Longrightarrow>
          assign_to_module s cn mnum layer strict = Inr (True, s1) \<Longrightarrow>
          add_course s1 mnum cn layer False = Inr s2 \<Longrightarrow> place_step L s s2"

text \<open>The courses as \<^verbatim>\<open>Course.__init__\<close> and the loaders leave them: nothing assigned.\<close>

definition fresh :: "scheduler \<Rightarrow> bool" where
  "fresh s \<longleftrightarrow>
     list_all (\<lambda>cn. module_assigned (courses s cn) = None \<and> teacher_assigned (courses s cn) = None
                    \<and> layer_assigned (courses s cn) = None \<and> \<not> is_celebrity (courses s cn))
       (course_keys s)"

text \<open>The prerequisite \<open>p\<close> is a course of the dictionary, has a layer and a module, and
  its absolute index \<^verbatim>\<open>layer * 14 + module\<close> is below \<open>absolute\<close>.\<close>

definition prereq_precedes :: "scheduler \<Rightarrow> int \<Rightarrow> string \<Rightarrow> bool" where
  "prereq_precedes s absolute p \<longleftrightarrow>
     p \<in> set (course_keys s) \<and>
     (case layer_assigned (courses s p) of
        None \<Rightarrow> False
      | Some pl \<Rightarrow>
          (case module_assigned (courses s p) of
             None \<Rightarrow> False
           | Some pm \<Rightarrow> pl * 14 + pm < absolute))"

text \<open>The course has a layer and a module, and each of its prerequisites precedes its
  absolute index.\<close>

definition prereqs_precede :: "scheduler \<Rightarrow> string \<Rightarrow> bool" where
  "prereqs_precede s cn \<longleftrightarrow>
     (case layer_assigned (courses s cn) of
        None \<Rightarrow> False
      | Some l \<Rightarrow>
          (case module_assigned (courses s cn) of
             None \<Rightarrow> False
           | Some m \<Rightarrow> list_all (prereq_precedes s (l * 14 + m)) (prereqs (courses s cn))))"

text \<open>The shape of a course at any moment of a run: not assigned, with no layer and not
  a celebrity; or placed by pass 1, a celebrity with a module and no layer; or placed
  by pass 2 or 3, after all its prerequisites.\<close>

definition well_placed :: "scheduler \<Rightarrow> string \<Rightarrow> bool" where
  "well_placed s cn \<longleftrightarrow>
     (case module_assigned (courses s cn) of
        None \<Rightarrow> layer_assigned (courses s cn) = None \<and> \<not> is_celebrity (courses s cn)
      | Some m \<Rightarrow>
          if is_celebrity (courses s cn) then layer_assigned (courses s cn) = None
          else prereqs_precede s cn)"

definition placement_inv :: "scheduler \<Rightarrow> bool" where
  "placement_inv s \<longleftrightarrow> list_all (well_placed s) (course_keys s)"

text \<open>The order of prerequisites, for the courses that pass 2 or pass 3 has placed (the
  assigned courses that are no celebrities).\<close>

definition placed_units_ordered :: "scheduler \<Rightarrow> bool" where
  "placed_units_ordered s \<longleftrightarrow>
     list_all (\<lambda>cn. module_assigned (courses s cn) \<noteq> None \<and> \<not> is_celebrity (courses s cn)
                      \<longrightarrow> prereqs_precede s cn)
       (course_keys s)"

text \<open>The same order as the specification states it: for every chained course that is
  assigned, by whichever pass.\<close>

definition claimed_chain_order :: "scheduler \<Rightarrow> bool" where
  "claimed_chain_order s \<longleftrightarrow>
     list_all (\<lambda>cn. part_of_chain (courses s cn) \<and> module_assigned (courses s cn) \<noteq> None
                      \<longrightarrow> prereqs_precede s cn)
       (course_keys s)"

text \<open>The number of courses of the dictionary that have a module.\<close>

definition assigned_count :: "scheduler \<Rightarrow> int" where
  "assigned_count s =
     int (length (filter (\<lambda>cn. module_assigned (courses s cn) \<noteq> None) (course_keys s)))"

text \<open>The modules as \<^verbatim>\<open>build_modules\<close> leaves them: no course, no celebrity course.\<close>

definition fresh_modules :: "scheduler \<Rightarrow> bool" where
  "fresh_modules s \<longleftrightarrow>
     list_all (\<lambda>m. mcourses (modules s m) = [] \<and> \<not> has_celebrity_course (modules s m))
       (module_keys s)"

text \<open>Every chained course among the courses of the module is a celebrity course, that is,
  one that pass 1 has fixed.\<close>

definition chained_are_fixed :: "scheduler \<Rightarrow> int \<Rightarrow> bool" where
  "chained_are_fixed s m \<longleftrightarrow>
     list_all (\<lambda>c. part_of_chain (courses s c) \<longrightarrow> is_celebrity (courses s c))
       (mcourses (modules s m))"

text \<open>The modules that hold a celebrity course hold no other chained course.\<close>

definition fixed_slots_exclusive :: "scheduler \<Rightarrow> bool" where
  "fixed_slots_exclusive s \<longleftrightarrow>
     list_all (\<lambda>m. has_celebrity_course (modules s m) \<longrightarrow> chained_are_fixed s m)
       (module_keys s)"

text \<open>The same as the specification states it: a module with a celebrity course holds
  no chained course at all.\<close>

definition claimed_slot_exclusion :: "scheduler \<Rightarrow> bool" where
  "claimed_slot_exclusion s \<longleftrightarrow>
     list_all (\<lambda>m. \<not> (has_celebrity_course (modules s m)
                      \<and> list_ex (\<lambda>c. part_of_chain (courses s c)) (mcourses (modules s m))))
       (module_keys s)"

text \<open>\<^verbatim>\<open>can_be_assigned_to_module\<close> never returns true for the course, whatever the module,
  the layer and the strictness; it returns false when all prerequisite names resolve
  (\<^verbatim>\<open>load_prereqs_into_courses\<close> sees to that), and otherwise may raise \<^verbatim>\<open>KeyError\<close>.\<close>

definition never_assignable :: "scheduler \<Rightarrow> string \<Rightarrow> bool" where
  "never_assignable s u \<longleftrightarrow>
     (\<forall>mnum layer strict.
        can_be_assigned_to_module s u mnum layer strict \<noteq> Inr True
      \<and> (set (prereqs (courses s u)) \<subseteq> set (course_keys s) \<longrightarrow>
           can_be_assigned_to_module s u mnum layer strict = Inr False))"

section \<open>Example inputs\<close>

text \<open>Scenario 1 of the specification: one course, one teacher who prefers module 5
  and is forbidden everywhere else, capacity 1.\<close>

definition alice :: teacher where
  "alice = Teacher_init {''CS101''} [-1, -1, -1, -1, 1, -1, -1, -1, -1, -1, -1, -1, -1, -1] 1"

definition scenario1 :: scheduler where
  "scenario1 =
     \<lparr>teachers = [''Alice'' \<mapsto> alice],
      course_keys = [''CS101''],
      courses = (\<lambda>_. Course_init)(''CS101'' := Course_init\<lparr>possible_teachers := [''Alice'']\<rparr>),
      module_keys = build_modules_keys,
      modules = build_modules\<rparr>"

text \<open>The same input with the course marked as part of a chain, as a row of the
  prerequisites file does.\<close>

definition chained_celebrity :: scheduler where
  "chained_celebrity =
     scenario1\<lparr>courses := (courses scenario1)(''CS101'' :=
        (courses scenario1 ''CS101'')\<lparr>part_of_chain := True\<rparr>)\<rparr>"

text \<open>Scenario 3 of the specification: the chain of \<open>A\<close> and \<open>B\<close>, where \<open>B\<close> requires \<open>A\<close>;
  a teacher with full availability.\<close>

definition tina :: teacher where
  "tina = Teacher_init {''A'', ''B'', ''U'', ''D''} [1, 1, 1, 1, 1, 1, 1, 1, 1, 1, 1, 1, 1, 1] 5"

definition scenario3 :: scheduler where
  "scenario3 =
     \<lparr>teachers = [''Tina'' \<mapsto> tina],
      course_keys = [''A'', ''B''],
      courses = (\<lambda>_. Course_init)
        (''A'' := Course_init\<lparr>part_of_chain := True, possible_teachers := [''Tina'']\<rparr>,
         ''B'' := Course_init\<lparr>part_of_chain := True, prereqs := [''A''],
                               possible_teachers := [''Tina'']\<rparr>),
      module_keys = build_modules_keys,
      modules = build_modules\<rparr>"

text \<open>A chained course \<open>U\<close> whose prerequisite is the course that pass 1 fixes.\<close>

definition behind_celebrity :: scheduler where
  "behind_celebrity =
     \<lparr>teachers = [''Alice'' \<mapsto> alice, ''Tina'' \<mapsto> tina],
      course_keys = [''CS101'', ''U''],
      courses = (\<lambda>_. Course_init)
        (''CS101'' := Course_init\<lparr>possible_teachers := [''Alice'']\<rparr>,
         ''U'' := Course_init\<lparr>part_of_chain := True, prereqs := [''CS101''],
                               possible_teachers := [''Tina'']\<rparr>),
      module_keys = build_modules_keys,
      modules = build_modules\<rparr>"

text \<open>A course \<open>U\<close> with minimum layer 1 and a course \<open>D\<close> outside every chain, both not
  assigned.\<close>

definition late_layer :: scheduler where
  "late_layer =
     \<lparr>teachers = [''Tina'' \<mapsto> tina],
      course_keys = [''U'', ''D''],
      courses = (\<lambda>_. Course_init)
        (''U'' := Course_init\<lparr>part_of_chain := True, min_layer := 1,
                               possible_teachers := [''Tina'']\<rparr>,
         ''D'' := Course_init\<lparr>possible_teachers := [''Tina'']\<rparr>),
      module_keys = build_modules_keys,
      modules = build_modules\<rparr>"

text \<open>Two teachers that differ in nothing but their names; the set of possible teachers
  of the course yields \<open>Bob\<close> before \<open>Alice\<close> (the order of a set of strings changes
  with the hash seed of the run).\<close>

definition twins :: scheduler where
  "twins =
     \<lparr>teachers = [''Alice'' \<mapsto> Teacher_init {''C''} [1, 1, 1, 1, 1, 1, 1, 1, 1, 1, 1, 1, 1, 1] 2,
                  ''Bob'' \<mapsto> Teacher_init {''C''} [1, 1, 1, 1, 1, 1, 1, 1, 1, 1, 1, 1, 1, 1] 2],
      course_keys = [''C''],
      courses = (\<lambda>_. Course_init)(''C'' := Course_init\<lparr>possible_teachers := [''Bob'', ''Alice'']\<rparr>),
      module_keys = build_modules_keys,
      modules = build_modules\<rparr>"

text \<open>A celebrity course that is chained, and a further chained course \<open>A\<close>.\<close>

definition chained_chain :: scheduler where
  "chained_chain =
     \<lparr>teachers = [''Alice'' \<mapsto> alice, ''Tina'' \<mapsto> tina],
      course_keys = [''CS101'', ''A''],
      courses = (\<lambda>_. Course_init)
        (''CS101'' := Course_init\<lparr>part_of_chain := True, possible_teachers := [''Alice'']\<rparr>,
         ''A'' := Course_init\<lparr>part_of_chain := True, possible_teachers := [''Tina'']\<rparr>),
      module_keys = build_modules_keys,
      modules = build_modules\<rparr>"



section \<open>Termination of the loops\<close>

lemma hd_sort_in_set: "xs \<noteq> [] \<Longrightarrow> hd (sort xs) \<in> set xs"
proof -
  assume "xs \<noteq> []"
  then have "sort xs \<noteq> []" by (metis length_0_conv length_sort)
  then have "hd (sort xs) \<in> set (sort xs)" by (rule hd_in_set)
  then show ?thesis by simp
qed

lemma pass2_candidates_subset:
  "pass2_candidates s m l strict un = Inr cands \<Longrightarrow> c \<in> set cands \<Longrightarrow> snd (snd c) \<in> set un"
proof (induction un arbitrary: cands)
  case Nil
  then show ?case by simp
next
  case (Cons cn rest)
  then show ?case
    by (auto split: sum.splits bool.splits if_splits)
qed


lemma pass2_module_cases:
  assumes "pass2_module strict layer (s, un, tot, p) m = Inr st'"
  obtains (skip) "st' = (s, un, tot, p)"
  | (place) cands chosen s1 s2 where
      "pass2_candidates s m layer strict un = Inr cands" "cands \<noteq> []"
      "chosen = snd (snd (hd (sort cands)))"
      "assign_to_module s chosen m layer strict = Inr (True, s1)"
      "add_course s1 m chosen layer False = Inr s2"
      "st' = (s2, remove1 chosen un, tot + 1, p + 1)"
      "\<not> has_celebrity_course (modules s m)"
proof (cases "m \<notin> set (module_keys s) \<or> has_celebrity_course (modules s m)
               \<or> chain_count_in_layer (modules s m) layer \<ge> 1")
  case True
  with assms have "st' = (s, un, tot, p)"
    by (auto simp: pass2_module_def split: if_splits)
  then show thesis by (rule skip)
next
  case False
  then have eq: "pass2_module strict layer (s, un, tot, p) m =
      (case pass2_candidates s m layer strict un of
              Inl e \<Rightarrow> Inl e
            | Inr [] \<Rightarrow> Inr (s, un, tot, p)
            | Inr (c # cs) \<Rightarrow>
                (let chosen = snd (snd (hd (sort (c # cs)))) in
                 case assign_to_module s chosen m layer strict of
                   Inl e \<Rightarrow> Inl e
                 | Inr (False, s1) \<Rightarrow> Inl RuntimeError
                 | Inr (True, s1) \<Rightarrow>
                     (case add_course s1 m chosen layer False of
                        Inl e \<Rightarrow> Inl e
                      | Inr s2 \<Rightarrow>
                          Inr (s2, remove1 chosen un, tot + 1, p + 1))))"
    by (simp add: pass2_module_def)
  show thesis
  proof (cases "pass2_candidates s m layer strict un")
    case (Inl e)
    with assms eq show thesis by simp
  next
    case (Inr cands)
    note cands = this
    show thesis
    proof (cases cands)
      case Nil
      with assms eq cands have "st' = (s, un, tot, p)" by simp
      then show thesis by (rule skip)
    next
      case (Cons c cs)
      let ?chosen = "snd (snd (hd (sort (c # cs))))"
      from assms[unfolded eq cands Cons] have a:
        "(case assign_to_module s ?chosen m layer strict of
                   Inl e \<Rightarrow> Inl e
                 | Inr (False, s1) \<Rightarrow> Inl RuntimeError
                 | Inr (True, s1) \<Rightarrow>
                     (case add_course s1 m ?chosen layer False of
                        Inl e \<Rightarrow> Inl e
                      | Inr s2 \<Rightarrow>
                          Inr (s2, remove1 ?chosen un, tot + 1, p + 1))) = Inr st'"
        by (simp only: sum.case list.case Let_def)
      then obtain s1 where s1: "assign_to_module s ?chosen m layer strict = Inr (True, s1)"
        by (cases "assign_to_module s ?chosen m layer strict") (auto split: bool.splits)
      with a obtain s2 where s2: "add_course s1 m ?chosen layer False = Inr s2"
        and st': "st' = (s2, remove1 ?chosen un, tot + 1, p + 1)"
        by (cases "add_course s1 m ?chosen layer False") auto
      show thesis
      proof (rule place[of cands ?chosen s1 s2])
        show "pass2_candidates s m layer strict un = Inr cands" by (rule cands)
        show "cands \<noteq> []" by (simp add: Cons)
        show "?chosen = snd (snd (hd (sort cands)))" by (simp only: Cons)
        from False show "\<not> has_celebrity_course (modules s m)" by simp
      qed (rule s1 s2 st')+
    qed
  qed
qed

lemma length_remove1_int: "x \<in> set xs \<Longrightarrow> int (length (remove1 x xs)) + 1 = int (length xs)"
  by (induction xs) auto

lemma pass2_module_length:
  assumes "pass2_module strict layer (s, un, tot, p) m = Inr (s', un', tot', p')"
  shows "int (length un') + p' = int (length un) + p \<and> p \<le> p'"
  using assms
proof (cases rule: pass2_module_cases)
  case skip
  then show ?thesis by simp
next
  case (place cands chosen s1 s2)
  from place(2) have "hd (sort cands) \<in> set cands" by (rule hd_sort_in_set)
  with place(1,3) have "chosen \<in> set un" by (simp add: pass2_candidates_subset)
  from length_remove1_int[OF this] place(6) show ?thesis by simp
qed

lemma pass2_sweep_length:
  "pass2_sweep strict layer (s, un, tot, p) ms = Inr (s', un', tot', p') \<Longrightarrow>
     int (length un') + p' = int (length un) + p \<and> p \<le> p'"
proof (induction ms arbitrary: s un tot p)
  case Nil
  then show ?case by simp
next
  case (Cons m ms)
  from Cons.prems obtain s1 un1 tot1 p1 where
    a: "pass2_module strict layer (s, un, tot, p) m = Inr (s1, un1, tot1, p1)"
    and b: "pass2_sweep strict layer (s1, un1, tot1, p1) ms = Inr (s', un', tot', p')"
    by (cases "pass2_module strict layer (s, un, tot, p) m") auto
  from pass2_module_length[OF a] Cons.IH[OF b] show ?case by simp
qed

lemma pass2_phases_length:
  "pass2_phases layer (s, un, tot) stricts = Inr (s', un', tot', ptl) \<Longrightarrow>
     int (length un') + ptl = int (length un) \<and> 0 \<le> ptl"
proof (induction stricts arbitrary: s un tot)
  case Nil
  then show ?case by simp
next
  case (Cons strict rest)
  from Cons.prems obtain s1 un1 tot1 p1 where
    a: "pass2_sweep strict layer (s, un, tot, 0) [1..14] = Inr (s1, un1, tot1, p1)"
    by (cases "pass2_sweep strict layer (s, un, tot, 0) [1..14]") auto
  note l = pass2_sweep_length[OF a]
  show ?case
  proof (cases "p1 > 0")
    case True
    with Cons.prems a l show ?thesis by simp
  next
    case False
    with Cons.prems a have "pass2_phases layer (s1, un1, tot1) rest = Inr (s', un', tot', ptl)"
      by simp
    from Cons.IH[OF this] l False show ?thesis by simp
  qed
qed

termination pass2_loop
proof (relation "measures [\<lambda>(ml, s, un, tot, layer). length un,
                           \<lambda>(ml, s, un, tot, layer). nat (ml + 1 - layer)]", goal_cases)
  case 1
  then show ?case by simp
next
  case (2 max_layers s unassigned assigned_total layer x2 s' y un' ya tot' ptl)
  then have "pass2_phases layer (s, unassigned, assigned_total) [True, False] = Inr (s', un', tot', ptl)"
    by simp
  from pass2_phases_length[OF this] 2 show ?case
    by auto
qed


lemma pass3_candidates_subset:
  "pass3_candidates s m strict un = Inr cands \<Longrightarrow> c \<in> set cands \<Longrightarrow> snd c \<in> set un"
proof (induction un arbitrary: cands)
  case Nil
  then show ?case by simp
next
  case (Cons cn rest)
  then show ?case
    by (auto split: sum.splits bool.splits if_splits)
qed

lemma pass3_candidates_accept:
  "pass3_candidates s m strict un = Inr cands \<Longrightarrow> c \<in> set cands \<Longrightarrow>
     can_accept s m (snd c) 0 False"
proof (induction un arbitrary: cands)
  case Nil
  then show ?case by simp
next
  case (Cons cn rest)
  then show ?case
    by (auto split: sum.splits bool.splits if_splits)
qed

lemma pass3_module_cases:
  assumes "pass3_module strict (s, un, tot, p) m = Inr st'"
  obtains (skip) "st' = (s, un, tot, p)"
  | (place) cands chosen s1 s2 where
      "pass3_candidates s m strict un = Inr cands" "cands \<noteq> []"
      "chosen = snd (hd (sort cands))"
      "assign_to_module s chosen m 0 strict = Inr (True, s1)"
      "add_course s1 m chosen 0 False = Inr s2"
      "st' = (s2, remove1 chosen un, tot + 1, p + 1)"
      "can_accept s m chosen 0 False"
proof (cases "pass3_candidates s m strict un")
  case (Inl e)
  with assms show thesis by (simp add: pass3_module_def)
next
  case (Inr cands)
  note cands = this
  show thesis
  proof (cases cands)
    case Nil
    with assms cands have "st' = (s, un, tot, p)" by (simp add: pass3_module_def)
    then show thesis by (rule skip)
  next
    case (Cons c cs)
    let ?chosen = "snd (hd (sort (c # cs)))"
    from assms[unfolded pass3_module_def prod.case cands Cons] have a:
      "(case assign_to_module s ?chosen m 0 strict of
              Inl e \<Rightarrow> Inl e
            | Inr (False, s1) \<Rightarrow> Inr (s, un, tot, p)
            | Inr (True, s1) \<Rightarrow>
                (case add_course s1 m ?chosen 0 False of
                   Inl e \<Rightarrow> Inl e
                 | Inr s2 \<Rightarrow>
                     Inr (s2, remove1 ?chosen un, tot + 1, p + 1))) = Inr st'"
      by (simp only: sum.case list.case Let_def)
    show thesis
    proof (cases "assign_to_module s ?chosen m 0 strict")
      case (Inl e)
      with a show thesis by simp
    next
      case (Inr r)
      obtain ok s1 where r: "r = (ok, s1)" by (cases r)
      show thesis
      proof (cases ok)
        case False
        with a Inr r have "st' = (s, un, tot, p)" by simp
        then show thesis by (rule skip)
      next
        case True
        with Inr r have s1: "assign_to_module s ?chosen m 0 strict = Inr (True, s1)" by simp
        with a obtain s2 where s2: "add_course s1 m ?chosen 0 False = Inr s2"
          and st': "st' = (s2, remove1 ?chosen un, tot + 1, p + 1)"
          by (cases "add_course s1 m ?chosen 0 False") auto
        show thesis
        proof (rule place[of cands ?chosen s1 s2])
          show "pass3_candidates s m strict un = Inr cands" by (rule cands)
          show "cands \<noteq> []" by (simp add: Cons)
          show "?chosen = snd (hd (sort cands))" by (simp only: Cons)
          have "hd (sort (c # cs)) \<in> set (c # cs)" by (rule hd_sort_in_set) simp
          with cands Cons show "can_accept s m ?chosen 0 False"
            by (intro pass3_candidates_accept[of s m strict un cands]) simp_all
        qed (rule s1 s2 st')+
      qed
    qed
  qed
qed

lemma pass3_module_length:
  assumes "pass3_module strict (s, un, tot, p) m = Inr (s', un', tot', p')"
  shows "int (length un') + p' = int (length un) + p \<and> p \<le> p'"
  using assms
proof (cases rule: pass3_module_cases)
  case skip
  then show ?thesis by simp
next
  case (place cands chosen s1 s2)
  from place(2) have "hd (sort cands) \<in> set cands" by (rule hd_sort_in_set)
  with place(1,3) have "chosen \<in> set un" by (simp add: pass3_candidates_subset)
  from length_remove1_int[OF this] place(6) show ?thesis by simp
qed

lemma pass3_sweep_length:
  "pass3_sweep strict (s, un, tot, p) ms = Inr (s', un', tot', p') \<Longrightarrow>
     int (length un') + p' = int (length un) + p \<and> p \<le> p'"
proof (induction ms arbitrary: s un tot p)
  case Nil
  then show ?case by simp
next
  case (Cons m ms)
  from Cons.prems obtain s1 un1 tot1 p1 where
    a: "pass3_module strict (s, un, tot, p) m = Inr (s1, un1, tot1, p1)"
    and b: "pass3_sweep strict (s1, un1, tot1, p1) ms = Inr (s', un', tot', p')"
    by (cases "pass3_module strict (s, un, tot, p) m") auto
  from pass3_module_length[OF a] Cons.IH[OF b] show ?case by simp
qed

termination pass3_while
proof (relation "measure (\<lambda>(strict, s, un, tot). length un)", goal_cases)
  case 1
  then show ?case by simp
next
  case (2 strict s unassigned assigned_total x2 s' y un' ya tot' progress)
  then have "pass3_sweep strict (s, unassigned, assigned_total, 0) (module_nums s) = Inr (s', un', tot', progress)"
    by simp
  from pass3_sweep_length[OF this] 2 show ?case
    by auto
qed

section \<open>Placements preserve the shape of the courses\<close>

lemma assign_to_module_True:
  assumes "assign_to_module s cn mnum layer strict = Inr (True, s1)"
  shows "can_be_assigned_to_module s cn mnum layer strict = Inr True"
    and "\<exists>tn t'. s1 = s\<lparr>teachers := (teachers s)(tn \<mapsto> t'),
                courses := (courses s)(cn :=
                  (courses s cn)\<lparr>module_assigned := Some mnum, layer_assigned := Some layer,
                                   teacher_assigned := Some tn\<rparr>)\<rparr>"
  using assms
  by (auto simp: assign_to_module_def split: sum.splits bool.splits option.splits prod.splits)

lemma add_course_frame:
  assumes "add_course s mnum cn layer celebrity = Inr s2"
  shows "courses s2 = courses s" "course_keys s2 = course_keys s" "teachers s2 = teachers s"
    "module_keys s2 = module_keys s"
  using assms by (auto simp: add_course_def Let_def split: if_splits)

lemma can_be_assigned_True:
  assumes "can_be_assigned_to_module s cn mnum layer strict = Inr True"
  shows "module_assigned (courses s cn) = None" "min_layer (courses s cn) \<le> layer"
    "all_prereqs_assigned_loop s (prereqs (courses s cn)) = Inr True"
    "prereqs_before s (layer * 14 + mnum) (prereqs (courses s cn)) = Inr True"
  using assms
  by (auto simp: can_be_assigned_to_module_def all_prereqs_assigned_def
      split: sum.splits bool.splits if_splits)

lemma place_step_courses:
  assumes "place_step L s s2"
  obtains cn mnum layer strict tn where "layer \<in> L"
    "can_be_assigned_to_module s cn mnum layer strict = Inr True"
    "courses s2 = (courses s)(cn :=
        (courses s cn)\<lparr>module_assigned := Some mnum, layer_assigned := Some layer,
                         teacher_assigned := Some tn\<rparr>)"
    "course_keys s2 = course_keys s"
  using assms
proof cases
  case (place layer cn mnum strict s1)
  from assign_to_module_True(2)[OF place(3)] obtain tn t' where
    s1: "s1 = s\<lparr>teachers := (teachers s)(tn \<mapsto> t'),
                courses := (courses s)(cn :=
                  (courses s cn)\<lparr>module_assigned := Some mnum, layer_assigned := Some layer,
                                   teacher_assigned := Some tn\<rparr>)\<rparr>" by blast
  from add_course_frame(1,2)[OF place(4)] s1 have
    "courses s2 = (courses s)(cn :=
        (courses s cn)\<lparr>module_assigned := Some mnum, layer_assigned := Some layer,
                         teacher_assigned := Some tn\<rparr>)" "course_keys s2 = course_keys s"
    by simp_all
  with place(1) assign_to_module_True(1)[OF place(3)] show thesis
    by (rule that)
qed

subsection \<open>Every change of a pass is a placement\<close>

lemma pass2_module_reach:
  assumes "pass2_module strict layer (s, un, tot, p) m = Inr (s', un', tot', p')"
  shows "(place_step UNIV)\<^sup>*\<^sup>* s s'"
  using assms
proof (cases rule: pass2_module_cases)
  case skip
  then show ?thesis by simp
next
  case (place cands chosen s1 s2)
  have "place_step UNIV s s2"
    by (rule place_step.place[OF UNIV_I _ place(4) place(5)]) (simp add: place(7))
  with place(6) show ?thesis by auto
qed

lemma pass2_sweep_reach:
  "pass2_sweep strict layer (s, un, tot, p) ms = Inr (s', un', tot', p') \<Longrightarrow>
     (place_step UNIV)\<^sup>*\<^sup>* s s'"
proof (induction ms arbitrary: s un tot p)
  case Nil
  then show ?case by simp
next
  case (Cons m ms)
  from Cons.prems obtain s1 un1 tot1 p1 where
    a: "pass2_module strict layer (s, un, tot, p) m = Inr (s1, un1, tot1, p1)"
    and b: "pass2_sweep strict layer (s1, un1, tot1, p1) ms = Inr (s', un', tot', p')"
    by (cases "pass2_module strict layer (s, un, tot, p) m") auto
  from pass2_module_reach[OF a] Cons.IH[OF b] show ?case by (rule rtranclp_trans)
qed

lemma pass2_phases_reach:
  "pass2_phases layer (s, un, tot) stricts = Inr (s', un', tot', ptl) \<Longrightarrow>
     (place_step UNIV)\<^sup>*\<^sup>* s s'"
proof (induction stricts arbitrary: s un tot)
  case Nil
  then show ?case by simp
next
  case (Cons strict rest)
  from Cons.prems obtain s1 un1 tot1 p1 where
    a: "pass2_sweep strict layer (s, un, tot, 0) [1..14] = Inr (s1, un1, tot1, p1)"
    by (cases "pass2_sweep strict layer (s, un, tot, 0) [1..14]") auto
  note r = pass2_sweep_reach[OF a]
  show ?case
  proof (cases "p1 > 0")
    case True
    with Cons.prems a r show ?thesis by simp
  next
    case False
    with Cons.prems a have "pass2_phases layer (s1, un1, tot1) rest = Inr (s', un', tot', ptl)"
      by simp
    from r Cons.IH[OF this] show ?thesis by (rule rtranclp_trans)
  qed
qed

lemma pass2_loop_reach:
  "pass2_loop max_layers s un tot layer = Inr (n, s') \<Longrightarrow> (place_step UNIV)\<^sup>*\<^sup>* s s'"
proof (induction max_layers s un tot layer rule: pass2_loop.induct)
  case (1 max_layers s un tot layer)
  show ?case
  proof (cases "un = [] \<or> layer > max_layers")
    case True
    with "1.prems" have "s' = s" by (subst (asm) pass2_loop.simps) (auto split: if_splits)
    then show ?thesis by simp
  next
    case False
    with "1.prems" obtain s1 un1 tot1 ptl where
      a: "pass2_phases layer (s, un, tot) [True, False] = Inr (s1, un1, tot1, ptl)"
      and b: "pass2_loop max_layers s1 un1 tot1 (if ptl = 0 then layer + 1 else layer) = Inr (n, s')"
      by (subst (asm) pass2_loop.simps)
        (cases "pass2_phases layer (s, un, tot) [True, False]", auto)
    from False have "un \<noteq> []" "\<not> max_layers < layer" by auto
    then have "(place_step UNIV)\<^sup>*\<^sup>* s1 s'"
      by (rule "1.IH"[OF _ _ a refl refl refl b])
    with pass2_phases_reach[OF a] show ?thesis by (rule rtranclp_trans)
  qed
qed

lemma pass2_chains_reach:
  "pass2_chains s max_layers = Inr (n, s') \<Longrightarrow> (place_step UNIV)\<^sup>*\<^sup>* s s'"
  unfolding pass2_chains_def by (rule pass2_loop_reach)

lemma pass3_module_reach:
  assumes "pass3_module strict (s, un, tot, p) m = Inr (s', un', tot', p')"
  shows "(place_step {0})\<^sup>*\<^sup>* s s'"
  using assms
proof (cases rule: pass3_module_cases)
  case skip
  then show ?thesis by simp
next
  case (place cands chosen s1 s2)
  from place(7) have g: "part_of_chain (courses s chosen) \<longrightarrow> \<not> has_celebrity_course (modules s m)"
    by (auto simp: can_accept_def Let_def split: if_splits)
  have "place_step {0} s s2"
    by (rule place_step.place[OF _ g place(4) place(5)]) simp
  with place(6) show ?thesis by auto
qed

lemma pass3_sweep_reach:
  "pass3_sweep strict (s, un, tot, p) ms = Inr (s', un', tot', p') \<Longrightarrow>
     (place_step {0})\<^sup>*\<^sup>* s s'"
proof (induction ms arbitrary: s un tot p)
  case Nil
  then show ?case by simp
next
  case (Cons m ms)
  from Cons.prems obtain s1 un1 tot1 p1 where
    a: "pass3_module strict (s, un, tot, p) m = Inr (s1, un1, tot1, p1)"
    and b: "pass3_sweep strict (s1, un1, tot1, p1) ms = Inr (s', un', tot', p')"
    by (cases "pass3_module strict (s, un, tot, p) m") auto
  from pass3_module_reach[OF a] Cons.IH[OF b] show ?case by (rule rtranclp_trans)
qed

lemma pass3_while_reach:
  "pass3_while strict s un tot = Inr (s', un', tot') \<Longrightarrow> (place_step {0})\<^sup>*\<^sup>* s s'"
proof (induction strict s un tot rule: pass3_while.induct)
  case (1 strict s un tot)
  show ?case
  proof (cases "un = []")
    case True
    with "1.prems" have "s' = s" by (subst (asm) pass3_while.simps) auto
    then show ?thesis by simp
  next
    case False
    with "1.prems" obtain s1 un1 tot1 progress where
      a: "pass3_sweep strict (s, un, tot, 0) (module_nums s) = Inr (s1, un1, tot1, progress)"
      and b: "(if progress = 0 then Inr (s1, un1, tot1) else pass3_while strict s1 un1 tot1)
                = Inr (s', un', tot')"
      by (subst (asm) pass3_while.simps)
        (cases "pass3_sweep strict (s, un, tot, 0) (module_nums s)", auto)
    note r = pass3_sweep_reach[OF a]
    show ?thesis
    proof (cases "progress = 0")
      case True
      with b r show ?thesis by simp
    next
      case nz: False
      with b have "pass3_while strict s1 un1 tot1 = Inr (s', un', tot')" by simp
      then have "(place_step {0})\<^sup>*\<^sup>* s1 s'"
        by (rule "1.IH"[OF False a refl refl refl nz])
      with r show ?thesis by (rule rtranclp_trans)
    qed
  qed
qed

lemma pass3_phases_reach:
  "pass3_phases (s, un, tot) stricts = Inr (n, s') \<Longrightarrow> (place_step {0})\<^sup>*\<^sup>* s s'"
proof (induction stricts arbitrary: s un tot)
  case Nil
  then show ?case by simp
next
  case (Cons strict rest)
  from Cons.prems obtain s1 un1 tot1 where
    a: "pass3_while strict s un tot = Inr (s1, un1, tot1)"
    by (cases "pass3_while strict s un tot") auto
  note r = pass3_while_reach[OF a]
  show ?case
  proof (cases "un1 = []")
    case True
    with Cons.prems a r show ?thesis by simp
  next
    case False
    with Cons.prems a have "pass3_phases (s1, un1, tot1) rest = Inr (n, s')" by simp
    from r Cons.IH[OF this] show ?thesis by (rule rtranclp_trans)
  qed
qed

lemma pass3_solitary_reach:
  "pass3_solitary s = Inr (n, s') \<Longrightarrow> (place_step {0})\<^sup>*\<^sup>* s s'"
  unfolding pass3_solitary_def by (rule pass3_phases_reach)

subsection \<open>Pass 1, row by row\<close>

lemma pass1_row_cases:
  assumes "pass1_row s (cn0, mnum, tn0) = Inr s'"
  obtains t t' where
    "strip cn0 \<in> set (course_keys s)" "mnum \<in> set (module_keys s)"
    "teachers s (strip tn0) = Some t"
    "module_assigned (courses s (strip cn0)) = None"
    "strip tn0 \<in> set (possible_teachers (courses s (strip cn0)))"
    "is_available_for t (strip cn0) mnum False = Inr True"
    "can_accept s mnum (strip cn0) 0 True"
    "assign_to t (strip cn0) mnum = Inr (True, t')"
    "add_course
       (s\<lparr>teachers := (teachers s)(strip tn0 \<mapsto> t'),
          courses := (courses s)(strip cn0 :=
            (courses s (strip cn0))\<lparr>module_assigned := Some mnum,
                                      teacher_assigned := Some (strip tn0),
                                      is_celebrity := True\<rparr>)\<rparr>)
       mnum (strip cn0) 0 True = Inr s'"
proof -
  from assms have a: "strip cn0 \<in> set (course_keys s)" "mnum \<in> set (module_keys s)"
    by (auto simp: pass1_row_def Let_def split: if_splits)
  from assms obtain t where t: "teachers s (strip tn0) = Some t"
    by (cases "teachers s (strip tn0)") (auto simp: pass1_row_def Let_def split: if_splits)
  from assms t have b: "module_assigned (courses s (strip cn0)) = None"
    "strip tn0 \<in> set (possible_teachers (courses s (strip cn0)))"
    by (auto simp: pass1_row_def Let_def split: if_splits)
  from assms t have c: "is_available_for t (strip cn0) mnum False = Inr True"
    by (cases "is_available_for t (strip cn0) mnum False")
      (auto simp: pass1_row_def Let_def split: if_splits bool.splits)
  from assms t c have d: "can_accept s mnum (strip cn0) 0 True"
    by (auto simp: pass1_row_def Let_def split: if_splits)
  from c obtain t' where e: "assign_to t (strip cn0) mnum = Inr (True, t')"
    by (auto simp: assign_to_def)
  from assms a t b c d e have
    "add_course
       (s\<lparr>teachers := (teachers s)(strip tn0 \<mapsto> t'),
          courses := (courses s)(strip cn0 :=
            (courses s (strip cn0))\<lparr>module_assigned := Some mnum,
                                      teacher_assigned := Some (strip tn0),
                                      is_celebrity := True\<rparr>)\<rparr>)
       mnum (strip cn0) 0 True = Inr s'"
    by (simp add: pass1_row_def Let_def split: if_splits)
  with a t b c d e show thesis by (rule that)
qed

lemma pass1_row_courses:
  assumes "pass1_row s (cn0, mnum, tn0) = Inr s'"
  shows "courses s' = (courses s)(strip cn0 :=
            (courses s (strip cn0))\<lparr>module_assigned := Some mnum,
                                      teacher_assigned := Some (strip tn0),
                                      is_celebrity := True\<rparr>)"
    and "course_keys s' = course_keys s"
  using assms
proof (atomize (full), cases rule: pass1_row_cases)
  case (1 t t')
  from add_course_frame(1,2)[OF 1(9)] show "courses s' = (courses s)(strip cn0 :=
            (courses s (strip cn0))\<lparr>module_assigned := Some mnum,
                                      teacher_assigned := Some (strip tn0),
                                      is_celebrity := True\<rparr>) \<and> course_keys s' = course_keys s"
    by simp
qed

subsection \<open>The placement invariant\<close>

lemma fresh_placement_inv: "fresh s \<Longrightarrow> placement_inv s"
  by (auto simp: fresh_def placement_inv_def well_placed_def list_all_iff)

lemma placement_inv_ordered: "placement_inv s \<Longrightarrow> placed_units_ordered s"
  by (auto simp: placement_inv_def placed_units_ordered_def well_placed_def list_all_iff
      split: option.splits if_splits)

lemma prereqs_before_True:
  "prereqs_before s a ps = Inr True \<Longrightarrow> list_all (prereq_precedes s a) ps"
  by (induction ps) (auto simp: prereq_precedes_def split: if_splits option.splits)

text \<open>A course whose record is replaced while it has no layer is no prerequisite of a
  course whose prerequisites all have a layer.\<close>

lemma prereq_precedes_upd:
  assumes "prereq_precedes s a p"
    and "layer_assigned (courses s cn) = None \<or> cn \<notin> set (course_keys s)"
    and "courses s' = (courses s)(cn := c')" and "course_keys s' = course_keys s"
  shows "prereq_precedes s' a p"
proof -
  from assms(1,2) have "p \<noteq> cn" by (auto simp: prereq_precedes_def)
  with assms show ?thesis by (auto simp: prereq_precedes_def split: option.splits)
qed

lemma prereqs_precede_upd:
  assumes "prereqs_precede s k" and "k \<noteq> cn"
    and "layer_assigned (courses s cn) = None \<or> cn \<notin> set (course_keys s)"
    and "courses s' = (courses s)(cn := c')" and "course_keys s' = course_keys s"
  shows "prereqs_precede s' k"
proof -
  from assms(1) obtain l m where l: "layer_assigned (courses s k) = Some l"
    and m: "module_assigned (courses s k) = Some m"
    and all: "list_all (prereq_precedes s (l * 14 + m)) (prereqs (courses s k))"
    by (auto simp: prereqs_precede_def split: option.splits)
  from all have "list_all (prereq_precedes s' (l * 14 + m)) (prereqs (courses s k))"
    unfolding list_all_iff using prereq_precedes_upd[OF _ assms(3-5)] by blast
  with l m assms(2,4) show ?thesis by (simp add: prereqs_precede_def)
qed

lemma well_placed_upd:
  assumes "well_placed s k" and "k \<noteq> cn"
    and "layer_assigned (courses s cn) = None \<or> cn \<notin> set (course_keys s)"
    and "courses s' = (courses s)(cn := c')" and "course_keys s' = course_keys s"
  shows "well_placed s' k"
proof (cases "module_assigned (courses s k) \<noteq> None \<and> \<not> is_celebrity (courses s k)")
  case True
  with assms(1) have "prereqs_precede s k" by (auto simp: well_placed_def)
  from prereqs_precede_upd[OF this assms(2-5)] True assms(2,4) show ?thesis
    by (auto simp: well_placed_def)
next
  case False
  with assms(1,2,4) show ?thesis
    by (auto simp: well_placed_def split: option.splits if_splits)
qed

lemma well_placed_None:
  "well_placed s cn \<Longrightarrow> module_assigned (courses s cn) = None \<Longrightarrow>
     layer_assigned (courses s cn) = None \<and> \<not> is_celebrity (courses s cn)"
  by (simp add: well_placed_def)

lemma placement_inv_None:
  assumes "placement_inv s" and "module_assigned (courses s cn) = None"
  shows "layer_assigned (courses s cn) = None \<or> cn \<notin> set (course_keys s)"
proof (cases "cn \<in> set (course_keys s)")
  case True
  with assms(1) have "well_placed s cn" by (simp add: placement_inv_def list_all_iff)
  from well_placed_None[OF this assms(2)] show ?thesis by simp
next
  case False
  then show ?thesis by simp
qed

lemma placement_inv_pass1_row:
  assumes "placement_inv s" and "pass1_row s row = Inr s'"
  shows "placement_inv s'"
proof -
  obtain cn0 mnum tn0 where row: "row = (cn0, mnum, tn0)" by (cases row)
  let ?cn = "strip cn0"
  note upd = pass1_row_courses[OF assms(2)[unfolded row]]
  from assms(2)[unfolded row] have key: "?cn \<in> set (course_keys s)"
    and un: "module_assigned (courses s ?cn) = None"
    by (cases rule: pass1_row_cases; simp)+
  note lay = placement_inv_None[OF assms(1) un]
  show ?thesis unfolding placement_inv_def list_all_iff
  proof
    fix k assume "k \<in> set (course_keys s')"
    with upd(2) have k: "k \<in> set (course_keys s)" by simp
    with assms(1) have wk: "well_placed s k" by (simp add: placement_inv_def list_all_iff)
    show "well_placed s' k"
    proof (cases "k = ?cn")
      case True
      with upd(1) lay key show ?thesis by (simp add: well_placed_def)
    next
      case False
      from well_placed_upd[OF wk False lay upd] show ?thesis .
    qed
  qed
qed

lemma placement_inv_pass1_loop:
  "placement_inv s \<Longrightarrow> pass1_loop s n rows = Inr (n', s') \<Longrightarrow> placement_inv s'"
proof (induction rows arbitrary: s n)
  case Nil
  then show ?case by simp
next
  case (Cons row rows)
  from Cons.prems(2) obtain s1 where a: "pass1_row s row = Inr s1"
    and b: "pass1_loop s1 (n + 1) rows = Inr (n', s')"
    by (cases "pass1_row s row") auto
  from Cons.IH[OF placement_inv_pass1_row[OF Cons.prems(1) a] b] show ?case .
qed

lemma placement_inv_place_step:
  assumes "placement_inv s" and "place_step L s s'"
  shows "placement_inv s'"
  using assms(2)
proof (cases rule: place_step_courses)
  case (1 cn mnum layer strict tn)
  note can = can_be_assigned_True[OF 1(2)]
  note lay = placement_inv_None[OF assms(1) can(1)]
  show ?thesis unfolding placement_inv_def list_all_iff
  proof
    fix k assume "k \<in> set (course_keys s')"
    with 1(4) have k: "k \<in> set (course_keys s)" by simp
    with assms(1) have wk: "well_placed s k" by (simp add: placement_inv_def list_all_iff)
    show "well_placed s' k"
    proof (cases "k = cn")
      case True
      from wk True can(1) have nc: "\<not> is_celebrity (courses s cn)"
        using well_placed_None by auto
      have "list_all (prereq_precedes s' (layer * 14 + mnum)) (prereqs (courses s cn))"
        unfolding list_all_iff
      proof
        fix p assume "p \<in> set (prereqs (courses s cn))"
        with prereqs_before_True[OF can(4)] have "prereq_precedes s (layer * 14 + mnum) p"
          by (simp add: list_all_iff)
        from prereq_precedes_upd[OF this lay 1(3,4)]
        show "prereq_precedes s' (layer * 14 + mnum) p" .
      qed
      with True 1(3) nc show ?thesis
        by (simp add: well_placed_def prereqs_precede_def)
    next
      case False
      from well_placed_upd[OF wk False lay 1(3,4)] show ?thesis .
    qed
  qed
qed

lemma placement_inv_reach:
  "(place_step L)\<^sup>*\<^sup>* s s' \<Longrightarrow> placement_inv s \<Longrightarrow> placement_inv s'"
  by (induction rule: rtranclp_induct) (auto intro: placement_inv_place_step)

subsection \<open>A unit behind a celebrity prerequisite\<close>

lemma prereqs_before_blocked:
  "p \<in> set ps \<Longrightarrow> layer_assigned (courses s p) = None \<Longrightarrow> prereqs_before s a ps \<noteq> Inr True"
  by (induction ps) (auto split: option.splits)

lemma can_be_blocked:
  assumes "p \<in> set (prereqs (courses s u))" and "layer_assigned (courses s p) = None"
  shows "can_be_assigned_to_module s u mnum layer strict \<noteq> Inr True"
proof
  assume "can_be_assigned_to_module s u mnum layer strict = Inr True"
  from can_be_assigned_True(4)[OF this] prereqs_before_blocked[OF assms]
  show False by blast
qed

lemma all_prereqs_assigned_total:
  "set ps \<subseteq> set (course_keys s) \<Longrightarrow>
     all_prereqs_assigned_loop s ps = Inr True \<or> all_prereqs_assigned_loop s ps = Inr False"
  by (induction ps) (auto simp: courses_get_def)

lemma prereqs_before_total:
  assumes "placement_inv s"
  shows "set ps \<subseteq> set (course_keys s) \<Longrightarrow>
     prereqs_before s a ps = Inr True \<or> prereqs_before s a ps = Inr False"
proof (induction ps)
  case Nil
  show ?case by simp
next
  case (Cons p ps)
  then have key: "p \<in> set (course_keys s)" by simp
  show ?case
  proof (cases "layer_assigned (courses s p)")
    case None
    with key show ?thesis by simp
  next
    case (Some pl)
    with placement_inv_None[OF assms, of p] key obtain pm where
      "module_assigned (courses s p) = Some pm" by (cases "module_assigned (courses s p)") auto
    with Some key Cons show ?thesis by auto
  qed
qed

lemma can_be_False:
  assumes "placement_inv s" and "p \<in> set (prereqs (courses s u))"
    and "layer_assigned (courses s p) = None"
    and "set (prereqs (courses s u)) \<subseteq> set (course_keys s)"
  shows "can_be_assigned_to_module s u mnum layer strict = Inr False"
proof -
  from all_prereqs_assigned_total[OF assms(4)]
  have b: "all_prereqs_assigned s u = Inr True \<or> all_prereqs_assigned s u = Inr False"
    by (simp add: all_prereqs_assigned_def)
  from prereqs_before_total[OF assms(1,4)]
    prereqs_before_blocked[OF assms(2,3), of "layer * 14 + mnum"]
  have b': "prereqs_before s (layer * 14 + mnum) (prereqs (courses s u)) = Inr False"
    by blast
  from b b' show ?thesis by (auto simp: can_be_assigned_to_module_def)
qed

lemma never_assignable_behind_celebrity:
  assumes "placement_inv s" and "p \<in> set (prereqs (courses s u))"
    and "layer_assigned (courses s p) = None"
  shows "never_assignable s u"
  unfolding never_assignable_def using can_be_blocked[OF assms(2,3)] can_be_False[OF assms]
  by blast

lemma blocked_step:
  assumes "place_step L s s'" and "p \<in> set (prereqs (courses s u))"
    and "layer_assigned (courses s p) = None" and "module_assigned (courses s p) \<noteq> None"
  shows "courses s' u = courses s u \<and> courses s' p = courses s p"
  using assms(1)
proof (cases rule: place_step_courses)
  case (1 cn mnum layer strict tn)
  from 1(2) can_be_blocked[OF assms(2,3)] have "cn \<noteq> u" by auto
  moreover from can_be_assigned_True(1)[OF 1(2)] assms(4) have "cn \<noteq> p" by auto
  ultimately show ?thesis using 1(3) by simp
qed

lemma blocked_reach:
  assumes "(place_step L)\<^sup>*\<^sup>* s s'" and "p \<in> set (prereqs (courses s u))"
    and "layer_assigned (courses s p) = None" and "module_assigned (courses s p) \<noteq> None"
  shows "courses s' u = courses s u \<and> courses s' p = courses s p"
  using assms(1)
proof (induction rule: rtranclp_induct)
  case base
  show ?case by simp
next
  case (step y z)
  with assms(2-4) blocked_step[OF step(2), of p u] show ?case by simp
qed

subsection \<open>Pass 3 and the minimum layer\<close>

lemma min_layer_step:
  assumes "place_step {0} s s'" and "1 \<le> min_layer (courses s u)"
  shows "courses s' u = courses s u"
  using assms(1)
proof (cases rule: place_step_courses)
  case (1 cn mnum layer strict tn)
  from can_be_assigned_True(2)[OF 1(2)] 1(1) assms(2) have "cn \<noteq> u" by auto
  with 1(3) show ?thesis by simp
qed

lemma min_layer_reach:
  assumes "(place_step {0})\<^sup>*\<^sup>* s s'" and "1 \<le> min_layer (courses s u)"
  shows "courses s' u = courses s u"
  using assms(1)
proof (induction rule: rtranclp_induct)
  case base
  show ?case by simp
next
  case (step y z)
  with assms(2) min_layer_step[OF step(2), of u] show ?case by simp
qed

subsection \<open>The minimum that \<^verbatim>\<open>get_teacher_for_module\<close> takes\<close>

lemma first_min_decomp:
  "\<exists>pre post. b # xs = pre @ first_min k b xs # post
      \<and> (\<forall>e\<in>set pre. k (first_min k b xs) < k e)
      \<and> (\<forall>e\<in>set post. k (first_min k b xs) \<le> k e)"
proof (induction xs arbitrary: b)
  case Nil
  show ?case by (intro exI[of _ "[]"]) simp
next
  case (Cons x xs)
  show ?case
  proof (cases "k x < k b")
    case True
    let ?r = "first_min k x xs"
    from True have r: "first_min k b (x # xs) = ?r" by simp
    from Cons.IH[of x] obtain pre post where
      d: "x # xs = pre @ ?r # post"
      and lt: "\<forall>e\<in>set pre. k ?r < k e" and le: "\<forall>e\<in>set post. k ?r \<le> k e"
      by blast
    have "k ?r \<le> k x"
    proof (cases pre)
      case Nil
      with d have "x = ?r" by (metis append_Nil list.inject)
      then show ?thesis by (metis order_refl)
    next
      case (Cons y ys)
      with d have "x \<in> set pre" by simp
      with lt show ?thesis by auto
    qed
    with True have "k ?r < k b" by simp
    with d lt le have "b # x # xs = (b # pre) @ ?r # post
        \<and> (\<forall>e\<in>set (b # pre). k ?r < k e) \<and> (\<forall>e\<in>set post. k ?r \<le> k e)"
      by simp
    then show ?thesis unfolding r by blast
  next
    case False
    let ?r = "first_min k b xs"
    from False have r: "first_min k b (x # xs) = ?r" by simp
    from Cons.IH[of b] obtain pre post where
      d: "b # xs = pre @ ?r # post"
      and lt: "\<forall>e\<in>set pre. k ?r < k e" and le: "\<forall>e\<in>set post. k ?r \<le> k e"
      by blast
    show ?thesis
    proof (cases pre)
      case Nil
      with d have rb: "b = ?r" and xs: "xs = post" by (metis append_Nil list.inject)+
      from False rb have "k ?r \<le> k x" by (metis not_less)
      with le xs rb have "b # x # xs = [] @ ?r # (x # post)
          \<and> (\<forall>e\<in>set []. k ?r < k e) \<and> (\<forall>e\<in>set (x # post). k ?r \<le> k e)"
        by auto
      then show ?thesis unfolding r by blast
    next
      case (Cons y ys)
      with d have y: "y = b" and xs: "xs = ys @ ?r # post"
        by (metis append_Cons list.inject)+
      from lt Cons y have "k ?r < k b" by simp
      with False have "k ?r < k x" by simp
      with lt Cons y xs le have "b # x # xs = (b # x # ys) @ ?r # post
          \<and> (\<forall>e\<in>set (b # x # ys). k ?r < k e) \<and> (\<forall>e\<in>set post. k ?r \<le> k e)"
        by simp
      then show ?thesis unfolding r by blast
    qed
  qed
qed

lemma key_lt_entries:
  assumes "teachers s x \<noteq> None" and "teachers s y \<noteq> None"
  shows "key_lt (entry_key (entry_of s mnum x)) (entry_key (entry_of s mnum y))
           = Inr (rank_of s mnum x < rank_of s mnum y)"
  using assms by (auto simp: entry_of_def rank_of_def rank_def)

lemma min_loop_first_min:
  "teachers s b \<noteq> None \<Longrightarrow> \<forall>x\<in>set xs. teachers s x \<noteq> None \<Longrightarrow>
     min_loop (entry_of s mnum b) (map (entry_of s mnum) xs)
       = Inr (entry_of s mnum (first_min (rank_of s mnum) b xs))"
proof (induction xs arbitrary: b)
  case Nil
  show ?case by simp
next
  case (Cons x xs)
  then have kl: "key_lt (entry_key (entry_of s mnum x)) (entry_key (entry_of s mnum b))
           = Inr (rank_of s mnum x < rank_of s mnum b)"
    by (intro key_lt_entries) auto
  from Cons.prems have "teachers s (if rank_of s mnum x < rank_of s mnum b then x else b) \<noteq> None"
    by auto
  from Cons.IH[OF this] Cons.prems(2) kl show ?case
    by (simp add: if_distrib[of "entry_of s mnum"])
qed

lemma fst_entry_of: "fst (entry_of s mnum tn) = tn"
  by (simp add: entry_of_def split: option.splits)

lemma available_loop_wf:
  assumes "1 \<le> mnum" and "mnum \<le> 14"
  shows "well_formed_teachers s tns \<Longrightarrow>
     available_loop s cn mnum strict tns
       = Inr (map (entry_of s mnum) (filter (is_available_name s cn mnum strict) tns))"
proof (induction tns)
  case Nil
  show ?case by simp
next
  case (Cons tn tns)
  from Cons.prems obtain t where t: "teachers s tn = Some t"
    and len: "length (availability t) = 14"
    and vals: "list_all (\<lambda>v. v = - 1 \<or> v = 0 \<or> v = 1) (availability t)"
    and rest: "well_formed_teachers s tns"
    by (auto simp: well_formed_teachers_def split: option.splits)
  from assms len have idx: "py_index (availability t) (mnum - 1) = Inr (availability t ! nat (mnum - 1))"
    by (simp add: py_index_def)
  from assms len have "nat (mnum - 1) < length (availability t)" by simp
  with vals have v: "availability t ! nat (mnum - 1) \<in> {- 1, 0, 1}"
    by (auto simp: list_all_length)
  from assms len obtain b where b: "is_available_for t cn mnum strict = Inr b"
    by (cases "is_available_for t cn mnum strict")
      (auto simp: is_available_for_def py_index_def split: if_splits)
  show ?case
  proof (cases b)
    case False
    with t b Cons.IH[OF rest] show ?thesis by (simp add: is_available_name_def)
  next
    case True
    with b idx v have "availability t ! nat (mnum - 1) \<noteq> - 1"
      by (auto simp: is_available_for_def split: if_splits)
    with v idx have sc: "availability_score t mnum = Inr (Some (preference_score t mnum))"
      by (auto simp: availability_score_def preference_score_def)
    from True t b sc Cons.IH[OF rest] show ?thesis
      by (simp add: is_available_name_def entry_of_def)
  qed
qed


subsection \<open>Modules with a celebrity course\<close>

lemma fresh_modules_exclusive: "fresh_modules s \<Longrightarrow> fixed_slots_exclusive s"
  by (simp add: fresh_modules_def fixed_slots_exclusive_def list_all_iff)

lemma add_course_modules:
  assumes "add_course s mnum cn layer celebrity = Inr s2"
  shows "\<exists>mm. modules s2 = (modules s)(mnum := mm)
           \<and> mcourses mm = mcourses (modules s mnum) @ [cn]
           \<and> has_celebrity_course mm = (celebrity \<or> has_celebrity_course (modules s mnum))"
  using assms by (auto simp: add_course_def Let_def split: if_splits)

lemma chained_are_fixed_cong:
  assumes "chained_are_fixed s m"
    and "mcourses (modules s' m) = mcourses (modules s m)"
    and "\<forall>c. part_of_chain (courses s' c) = part_of_chain (courses s c)"
    and "\<forall>c. is_celebrity (courses s c) \<longrightarrow> is_celebrity (courses s' c)"
  shows "chained_are_fixed s' m"
  using assms by (auto simp: chained_are_fixed_def list_all_iff)

lemma exclusive_pass1_row:
  assumes "fixed_slots_exclusive s" and "pass1_row s row = Inr s'"
  shows "fixed_slots_exclusive s'"
proof -
  obtain cn0 mnum tn0 where row: "row = (cn0, mnum, tn0)" by (cases row)
  let ?cn = "strip cn0"
  from assms(2)[unfolded row] show ?thesis
  proof (cases rule: pass1_row_cases)
    case (1 t t')
    let ?s1 = "s\<lparr>teachers := (teachers s)(strip tn0 \<mapsto> t'),
          courses := (courses s)(?cn :=
            (courses s ?cn)\<lparr>module_assigned := Some mnum,
                                      teacher_assigned := Some (strip tn0),
                                      is_celebrity := True\<rparr>)\<rparr>"
    from add_course_modules[OF 1(9)] obtain mm where
      mods: "modules s' = (modules s)(mnum := mm)"
      and occ: "mcourses mm = mcourses (modules s mnum) @ [?cn]"
      by auto
    from add_course_frame[OF 1(9)] have crs: "courses s' = courses ?s1"
      and mk: "module_keys s' = module_keys s" by simp_all
    from 1(7) have nochain: "\<not> list_ex (\<lambda>c. part_of_chain (courses s c)) (mcourses (modules s mnum))"
      by (auto simp: can_accept_def Let_def split: if_splits)
    have poc: "\<forall>c. part_of_chain (courses s' c) = part_of_chain (courses s c)"
      using crs by simp
    have cel: "\<forall>c. is_celebrity (courses s c) \<longrightarrow> is_celebrity (courses s' c)"
      using crs by simp
    show ?thesis unfolding fixed_slots_exclusive_def list_all_iff
    proof (intro ballI impI)
      fix k assume k: "k \<in> set (module_keys s')" and flag: "has_celebrity_course (modules s' k)"
      show "chained_are_fixed s' k"
      proof (cases "k = mnum")
        case True
        from nochain poc have "\<forall>c\<in>set (mcourses (modules s mnum)). \<not> part_of_chain (courses s' c)"
          by (simp add: list_ex_iff)
        moreover from crs have "is_celebrity (courses s' ?cn)" by simp
        ultimately show ?thesis using True mods occ
          by (auto simp: chained_are_fixed_def list_all_iff)
      next
        case False
        with mods flag have f: "has_celebrity_course (modules s k)"
          and same: "mcourses (modules s' k) = mcourses (modules s k)" by simp_all
        from assms(1) k mk f have "chained_are_fixed s k"
          by (simp add: fixed_slots_exclusive_def list_all_iff)
        from chained_are_fixed_cong[OF this same poc cel] show ?thesis .
      qed
    qed
  qed
qed

lemma exclusive_pass1_loop:
  "fixed_slots_exclusive s \<Longrightarrow> pass1_loop s n rows = Inr (n', s') \<Longrightarrow> fixed_slots_exclusive s'"
proof (induction rows arbitrary: s n)
  case Nil
  then show ?case by simp
next
  case (Cons row rows)
  from Cons.prems(2) obtain s1 where a: "pass1_row s row = Inr s1"
    and b: "pass1_loop s1 (n + 1) rows = Inr (n', s')"
    by (cases "pass1_row s row") auto
  from Cons.IH[OF exclusive_pass1_row[OF Cons.prems(1) a] b] show ?case .
qed

lemma exclusive_place_step:
  assumes "fixed_slots_exclusive s" and "place_step L s s'"
  shows "fixed_slots_exclusive s'"
  using assms(2)
proof cases
  case (place layer cn mnum strict s1)
  from assign_to_module_True(2)[OF place(3)] obtain tn t' where
    s1: "s1 = s\<lparr>teachers := (teachers s)(tn \<mapsto> t'),
                courses := (courses s)(cn :=
                  (courses s cn)\<lparr>module_assigned := Some mnum, layer_assigned := Some layer,
                                   teacher_assigned := Some tn\<rparr>)\<rparr>" by blast
  from add_course_modules[OF place(4)] s1 obtain mm where
    mods: "modules s' = (modules s)(mnum := mm)"
    and occ: "mcourses mm = mcourses (modules s mnum) @ [cn]"
    and fl: "has_celebrity_course mm = has_celebrity_course (modules s mnum)"
    by auto
  from add_course_frame[OF place(4)] s1 have
    crs: "courses s' = (courses s)(cn :=
                  (courses s cn)\<lparr>module_assigned := Some mnum, layer_assigned := Some layer,
                                   teacher_assigned := Some tn\<rparr>)"
    and mk: "module_keys s' = module_keys s" by simp_all
  have poc: "\<forall>c. part_of_chain (courses s' c) = part_of_chain (courses s c)"
    using crs by simp
  have cel: "\<forall>c. is_celebrity (courses s c) \<longrightarrow> is_celebrity (courses s' c)"
    using crs by simp
  show ?thesis unfolding fixed_slots_exclusive_def list_all_iff
  proof (intro ballI impI)
    fix k assume k: "k \<in> set (module_keys s')" and flag: "has_celebrity_course (modules s' k)"
    show "chained_are_fixed s' k"
    proof (cases "k = mnum")
      case True
      with flag mods fl have f: "has_celebrity_course (modules s mnum)" by simp
      with place(2) poc have nc: "\<not> part_of_chain (courses s' cn)" by simp
      from assms(1) k mk f True have "chained_are_fixed s mnum"
        by (simp add: fixed_slots_exclusive_def list_all_iff)
      with poc cel nc True mods occ show ?thesis
        by (auto simp: chained_are_fixed_def list_all_iff)
    next
      case False
      with mods flag have f: "has_celebrity_course (modules s k)"
        and same: "mcourses (modules s' k) = mcourses (modules s k)" by simp_all
      from assms(1) k mk f have "chained_are_fixed s k"
        by (simp add: fixed_slots_exclusive_def list_all_iff)
      from chained_are_fixed_cong[OF this same poc cel] show ?thesis .
    qed
  qed
qed

lemma exclusive_reach:
  "(place_step L)\<^sup>*\<^sup>* s s' \<Longrightarrow> fixed_slots_exclusive s \<Longrightarrow> fixed_slots_exclusive s'"
  by (induction rule: rtranclp_induct) (auto intro: exclusive_place_step)


subsection \<open>What pass 2 counts\<close>

lemma filter_one_more:
  "distinct ks \<Longrightarrow> cn \<in> set ks \<Longrightarrow> \<not> P cn \<Longrightarrow> Q cn \<Longrightarrow> (\<forall>k. k \<noteq> cn \<longrightarrow> Q k = P k) \<Longrightarrow>
     length (filter Q ks) = Suc (length (filter P ks))"
proof (induction ks)
  case Nil
  then show ?case by simp
next
  case (Cons k ks)
  show ?case
  proof (cases "k = cn")
    case True
    with Cons.prems have "cn \<notin> set ks" by simp
    with Cons.prems(5) have "filter Q ks = filter P ks"
      by (intro filter_cong) auto
    with True Cons.prems show ?thesis by simp
  next
    case False
    with Cons show ?thesis by auto
  qed
qed

lemma placement_counts_one:
  assumes "assign_to_module s cn mnum layer strict = Inr (True, s1)"
    and "add_course s1 mnum cn layer False = Inr s2"
    and "distinct (course_keys s)" and "cn \<in> set (course_keys s)"
  shows "assigned_count s2 = assigned_count s + 1" and "course_keys s2 = course_keys s"
proof -
  from assign_to_module_True(2)[OF assms(1)] obtain tn t' where
    s1: "s1 = s\<lparr>teachers := (teachers s)(tn \<mapsto> t'),
                courses := (courses s)(cn :=
                  (courses s cn)\<lparr>module_assigned := Some mnum, layer_assigned := Some layer,
                                   teacher_assigned := Some tn\<rparr>)\<rparr>" by blast
  from add_course_frame(1,2)[OF assms(2)] s1 have
    crs: "courses s2 = (courses s)(cn :=
                  (courses s cn)\<lparr>module_assigned := Some mnum, layer_assigned := Some layer,
                                   teacher_assigned := Some tn\<rparr>)"
    and ck: "course_keys s2 = course_keys s" by simp_all
  from can_be_assigned_True(1)[OF assign_to_module_True(1)[OF assms(1)]]
  have un: "module_assigned (courses s cn) = None" .
  have "length (filter (\<lambda>k. module_assigned (courses s2 k) \<noteq> None) (course_keys s))
      = Suc (length (filter (\<lambda>k. module_assigned (courses s k) \<noteq> None) (course_keys s)))"
    by (rule filter_one_more[OF assms(3,4)]) (simp_all add: un crs)
  with ck show "assigned_count s2 = assigned_count s + 1" by (simp add: assigned_count_def)
  from ck show "course_keys s2 = course_keys s" .
qed

lemma pass2_module_count:
  assumes "pass2_module strict layer (s, un, tot, p) m = Inr (s', un', tot', p')"
    and "distinct (course_keys s)" and "set un \<subseteq> set (course_keys s)"
  shows "tot' - assigned_count s' = tot - assigned_count s \<and> course_keys s' = course_keys s
       \<and> set un' \<subseteq> set un"
  using assms(1)
proof (cases rule: pass2_module_cases)
  case skip
  then show ?thesis by simp
next
  case (place cands chosen s1 s2)
  from place(2) have "hd (sort cands) \<in> set cands" by (rule hd_sort_in_set)
  with place(1,3) have "chosen \<in> set un" by (simp add: pass2_candidates_subset)
  with assms(3) have "chosen \<in> set (course_keys s)" by auto
  from placement_counts_one[OF place(4,5) assms(2) this] place(6)
  have "tot' - assigned_count s' = tot - assigned_count s" "course_keys s' = course_keys s"
    "un' = remove1 chosen un" by simp_all
  moreover have "set (remove1 chosen un) \<subseteq> set un" by (rule set_remove1_subset)
  ultimately show ?thesis by simp
qed

lemma pass2_sweep_count:
  "pass2_sweep strict layer (s, un, tot, p) ms = Inr (s', un', tot', p') \<Longrightarrow>
   distinct (course_keys s) \<Longrightarrow> set un \<subseteq> set (course_keys s) \<Longrightarrow>
     tot' - assigned_count s' = tot - assigned_count s \<and> course_keys s' = course_keys s
       \<and> set un' \<subseteq> set un"
proof (induction ms arbitrary: s un tot p)
  case Nil
  then show ?case by simp
next
  case (Cons m ms)
  from Cons.prems(1) obtain s1 un1 tot1 p1 where
    a: "pass2_module strict layer (s, un, tot, p) m = Inr (s1, un1, tot1, p1)"
    and b: "pass2_sweep strict layer (s1, un1, tot1, p1) ms = Inr (s', un', tot', p')"
    by (cases "pass2_module strict layer (s, un, tot, p) m") auto
  note c = pass2_module_count[OF a Cons.prems(2,3)]
  with Cons.prems have "distinct (course_keys s1)" "set un1 \<subseteq> set (course_keys s1)" by auto
  from Cons.IH[OF b this] c show ?case by auto
qed

lemma pass2_phases_count:
  "pass2_phases layer (s, un, tot) stricts = Inr (s', un', tot', ptl) \<Longrightarrow>
   distinct (course_keys s) \<Longrightarrow> set un \<subseteq> set (course_keys s) \<Longrightarrow>
     tot' - assigned_count s' = tot - assigned_count s \<and> course_keys s' = course_keys s
       \<and> set un' \<subseteq> set un"
proof (induction stricts arbitrary: s un tot)
  case Nil
  then show ?case by simp
next
  case (Cons strict rest)
  from Cons.prems(1) obtain s1 un1 tot1 p1 where
    a: "pass2_sweep strict layer (s, un, tot, 0) [1..14] = Inr (s1, un1, tot1, p1)"
    by (cases "pass2_sweep strict layer (s, un, tot, 0) [1..14]") auto
  note c = pass2_sweep_count[OF a Cons.prems(2,3)]
  show ?case
  proof (cases "p1 > 0")
    case True
    with Cons.prems(1) a c show ?thesis by simp
  next
    case False
    with Cons.prems(1) a have b: "pass2_phases layer (s1, un1, tot1) rest = Inr (s', un', tot', ptl)"
      by simp
    from c Cons.prems have "distinct (course_keys s1)" "set un1 \<subseteq> set (course_keys s1)" by auto
    from Cons.IH[OF b this] c show ?thesis by auto
  qed
qed

lemma pass2_loop_count:
  "pass2_loop max_layers s un tot layer = Inr (n, s') \<Longrightarrow>
   distinct (course_keys s) \<Longrightarrow> set un \<subseteq> set (course_keys s) \<Longrightarrow>
     n - assigned_count s' = tot - assigned_count s"
proof (induction max_layers s un tot layer rule: pass2_loop.induct)
  case (1 max_layers s un tot layer)
  show ?case
  proof (cases "un = [] \<or> layer > max_layers")
    case True
    with "1.prems"(1) have "s' = s \<and> n = tot"
      by (subst (asm) pass2_loop.simps) (auto split: if_splits)
    then show ?thesis by simp
  next
    case False
    with "1.prems"(1) obtain s1 un1 tot1 ptl where
      a: "pass2_phases layer (s, un, tot) [True, False] = Inr (s1, un1, tot1, ptl)"
      and b: "pass2_loop max_layers s1 un1 tot1 (if ptl = 0 then layer + 1 else layer) = Inr (n, s')"
      by (subst (asm) pass2_loop.simps)
        (cases "pass2_phases layer (s, un, tot) [True, False]", auto)
    note c = pass2_phases_count[OF a "1.prems"(2,3)]
    with "1.prems" have d: "distinct (course_keys s1)" "set un1 \<subseteq> set (course_keys s1)" by auto
    from False have "un \<noteq> []" "\<not> max_layers < layer" by auto
    from "1.IH"[OF this a refl refl refl b d] c show ?thesis by simp
  qed
qed


subsection \<open>A sweep that places nothing\<close>







subsection \<open>Reading the result of an evaluated run\<close>

lemma run_caseE:
  assumes "case r of Inl e \<Rightarrow> False | Inr (n, s) \<Rightarrow> P n s"
  obtains n s where "r = Inr (n, s)" and "P n s"
  using assms by (cases r) auto


section \<open>Claims about the teacher\<close>

text \<open>C7: for a teacher with 14 availability values and a module number in 1..14,
  \<^verbatim>\<open>is_available_for\<close> returns false exactly when no capacity is left, or the module is
  already taken by the teacher, or the availability value of the module is -1, or
  the check is strict and the value is 0, or the teacher cannot teach the course; it
  returns true otherwise.  It only returns a truth value: the teacher is not
  changed.\<close>

theorem is_available_for_spec:
  assumes "length (availability t) = 14" and "1 \<le> mnum" and "mnum \<le> 14"
  shows "is_available_for t course_name mnum strict =
     Inr (\<not> (capacity_left t < 1
              \<or> mnum \<in> assigned_modules t
              \<or> availability t ! nat (mnum - 1) = - 1
              \<or> (strict \<and> availability t ! nat (mnum - 1) = 0)
              \<or> course_name \<notin> can_teach_courses t))"
  using assms by (simp add: is_available_for_def py_index_def)

theorem is_available_for_spec_witness:
  "length (availability alice) = 14 \<and> (1::int) \<le> 5 \<and> (5::int) \<le> 14
   \<and> is_available_for alice ''CS101'' 5 True = Inr True
   \<and> is_available_for alice ''CS101'' 4 False = Inr False
   \<and> is_available_for alice ''MA201'' 5 False = Inr False"
proof -
  have len: "length (availability alice) = 14"
    by (simp add: alice_def Teacher_init_def)
  show ?thesis
    using is_available_for_spec [OF len, of 5 "''CS101''" True]
      is_available_for_spec [OF len, of 4 "''CS101''" False]
      is_available_for_spec [OF len, of 5 "''MA201''" False]
    by (simp add: alice_def Teacher_init_def)
qed

text \<open>C8: \<^verbatim>\<open>assign_to\<close> checks \<^verbatim>\<open>is_available_for\<close> again, not strictly.  When the check
  passes it appends the pair of course and module to \<^verbatim>\<open>teaches\<close>, adds the module to
  \<^verbatim>\<open>assigned_modules\<close>, takes exactly 1 off \<^verbatim>\<open>capacity_left\<close> and returns true; when the
  check fails it returns false and the teacher is unchanged.\<close>

theorem assign_to_spec:
  "(is_available_for t course_name mnum False = Inr True \<longrightarrow>
      (\<exists>t'. assign_to t course_name mnum = Inr (True, t')
          \<and> teaches t' = teaches t @ [(course_name, mnum)]
          \<and> assigned_modules t' = insert mnum (assigned_modules t)
          \<and> capacity_left t' = capacity_left t - 1
          \<and> can_teach_courses t' = can_teach_courses t
          \<and> availability t' = availability t
          \<and> capacity_total t' = capacity_total t))
   \<and> (is_available_for t course_name mnum False = Inr False \<longrightarrow>
        assign_to t course_name mnum = Inr (False, t))"
  by (simp add: assign_to_def)

theorem assign_to_spec_witness:
  "is_available_for alice ''CS101'' 5 False = Inr True
   \<and> (\<exists>t'. assign_to alice ''CS101'' 5 = Inr (True, t')
          \<and> teaches t' = [(''CS101'', 5)] \<and> assigned_modules t' = {5} \<and> capacity_left t' = 0)
   \<and> is_available_for alice ''CS101'' 4 False = Inr False
   \<and> assign_to alice ''CS101'' 4 = Inr (False, alice)"
proof -
  have yes: "is_available_for alice ''CS101'' 5 False = Inr True"
    by (simp add: is_available_for_def py_index_def alice_def Teacher_init_def)
  have no: "is_available_for alice ''CS101'' 4 False = Inr False"
    by (simp add: is_available_for_def py_index_def alice_def Teacher_init_def)
  from assign_to_spec [of alice "''CS101''" 5] yes
  obtain t' where "assign_to alice ''CS101'' 5 = Inr (True, t')"
    "teaches t' = teaches alice @ [(''CS101'', 5)]"
    "assigned_modules t' = insert 5 (assigned_modules alice)"
    "capacity_left t' = capacity_left alice - 1"
    by blast
  moreover from assign_to_spec [of alice "''CS101''" 4] no
  have "assign_to alice ''CS101'' 4 = Inr (False, alice)" by blast
  ultimately show ?thesis
    using yes no by (simp add: alice_def Teacher_init_def)
qed

section \<open>Claims about the loop of pass 2\<close>

text \<open>C5: when the loop of \<^verbatim>\<open>pass2_chains\<close> finds the layer counter above \<^verbatim>\<open>max_layers\<close>
  while chained courses are still in the work list, it stops without raising: the
  pass returns the number of courses placed so far and leaves every object as it is,
  so the remaining courses stay unassigned.  Whenever the pass returns, the number it
  returns is the number of courses that it has assigned.\<close>

theorem pass2_cutoff_is_not_an_error:
  "(unassigned \<noteq> [] \<and> layer > max_layers \<longrightarrow>
      pass2_loop max_layers s unassigned assigned_total layer = Inr (assigned_total, s))
   \<and> (distinct (course_keys s) \<and> pass2_chains s max_layers = Inr (n, s') \<longrightarrow>
        n = assigned_count s' - assigned_count s)"
proof (intro conjI impI)
  assume "unassigned \<noteq> [] \<and> layer > max_layers"
  then show "pass2_loop max_layers s unassigned assigned_total layer = Inr (assigned_total, s)"
    by (subst pass2_loop.simps) simp
next
  let ?un = "filter (\<lambda>cn. part_of_chain (courses s cn) \<and> module_assigned (courses s cn) = None)
               (course_keys s)"
  assume a: "distinct (course_keys s) \<and> pass2_chains s max_layers = Inr (n, s')"
  then have r: "pass2_loop max_layers s ?un 0 0 = Inr (n, s')" and d: "distinct (course_keys s)"
    by (simp_all add: pass2_chains_def)
  have "set ?un \<subseteq> set (course_keys s)" by auto
  from pass2_loop_count[OF r d this] show "n = assigned_count s' - assigned_count s" by simp
qed

theorem pass2_cutoff_is_not_an_error_witness:
  "[''U''] \<noteq> [] \<and> (1::int) > 0
   \<and> pass2_loop 0 late_layer [''U''] 0 1 = Inr (0, late_layer)
   \<and> distinct (course_keys late_layer)
   \<and> (\<exists>n s'. pass2_chains late_layer 0 = Inr (n, s') \<and> n = 0
          \<and> assigned_count s' = assigned_count late_layer
          \<and> module_assigned (courses s' ''U'') = None)"
proof -
  have d: "distinct (course_keys late_layer)"
    by code_simp
  have "case pass2_chains late_layer 0 of
          Inl e \<Rightarrow> False
        | Inr (n, s') \<Rightarrow> n = 0 \<and> module_assigned (courses s' ''U'') = None"
    by code_simp
  then obtain n s' where r: "pass2_chains late_layer 0 = Inr (n, s')"
    and v: "n = 0 \<and> module_assigned (courses s' ''U'') = None"
    by (rule run_caseE)
  from pass2_cutoff_is_not_an_error
         [where unassigned = "[''U'']" and layer = 1 and max_layers = 0 and s = late_layer
            and assigned_total = 0 and n = n and s' = s'] d r v
  have "pass2_loop 0 late_layer [''U''] 0 1 = Inr (0, late_layer)"
    and "assigned_count s' = assigned_count late_layer"
    by simp_all
  with d r v show ?thesis by auto
qed



section \<open>Claims about the choice of a teacher\<close>

text \<open>C4, as stated: among available teachers that are tied on the tuple, the one with
  the smallest name is returned.  \<^verbatim>\<open>min\<close> keeps the first minimal entry it meets, and
  the entries stand in the order of the set \<^verbatim>\<open>possible_teachers\<close>: with \<open>Bob\<close> met before
  \<open>Alice\<close>, both available and tied, \<open>Bob\<close> is returned.\<close>

theorem tie_break_counterexample:
  "get_teacher_for_module twins ''C'' 1 False = Inr (Some ''Bob'')
   \<and> available_names twins ''C'' 1 False = [''Bob'', ''Alice'']
   \<and> rank_of twins 1 ''Alice'' = rank_of twins 1 ''Bob''
   \<and> ''Alice'' < ''Bob''"
  by code_simp

text \<open>C4, amended: for a course whose possible teachers all resolve and have 14
  availability values in -1, 0, 1, and a module number in 1..14,
  \<^verbatim>\<open>get_teacher_for_module\<close> returns \<^verbatim>\<open>None\<close> when no possible teacher is available, and
  otherwise an available possible teacher whose tuple is minimal; among several
  teachers tied on the minimal tuple it is the one that the iteration over
  \<^verbatim>\<open>possible_teachers\<close> meets first.\<close>

theorem get_teacher_first_minimal:
  assumes "well_formed_teachers s (possible_teachers (courses s cn))"
    and "1 \<le> mnum" and "mnum \<le> 14"
  shows "(available_names s cn mnum strict = [] \<longrightarrow>
            get_teacher_for_module s cn mnum strict = Inr None)
       \<and> (available_names s cn mnum strict \<noteq> [] \<longrightarrow>
            (\<exists>pre best post.
                get_teacher_for_module s cn mnum strict = Inr (Some best)
              \<and> available_names s cn mnum strict = pre @ best # post
              \<and> (\<forall>tn\<in>set pre. rank_of s mnum best < rank_of s mnum tn)
              \<and> (\<forall>tn\<in>set post. rank_of s mnum best \<le> rank_of s mnum tn)))"
proof -
  let ?av = "available_names s cn mnum strict"
  have al: "available_loop s cn mnum strict (possible_teachers (courses s cn))
              = Inr (map (entry_of s mnum) ?av)"
    unfolding available_names_def by (rule available_loop_wf[OF assms(2,3) assms(1)])
  have res: "\<forall>tn\<in>set ?av. teachers s tn \<noteq> None"
    by (auto simp: available_names_def is_available_name_def split: option.splits)
  show ?thesis
  proof (cases ?av)
    case Nil
    with al show ?thesis by (simp add: get_teacher_for_module_def)
  next
    case (Cons b xs)
    let ?best = "first_min (rank_of s mnum) b xs"
    from res Cons have "teachers s b \<noteq> None" "\<forall>x\<in>set xs. teachers s x \<noteq> None" by simp_all
    from min_loop_first_min[OF this, of mnum] al Cons
    have g: "get_teacher_for_module s cn mnum strict = Inr (Some ?best)"
      by (simp add: get_teacher_for_module_def fst_entry_of)
    from first_min_decomp[of b xs "rank_of s mnum"] obtain pre post where
      "b # xs = pre @ ?best # post"
      "\<forall>e\<in>set pre. rank_of s mnum ?best < rank_of s mnum e"
      "\<forall>e\<in>set post. rank_of s mnum ?best \<le> rank_of s mnum e"
      by blast
    with g Cons show ?thesis by auto
  qed
qed

theorem get_teacher_first_minimal_witness:
  "well_formed_teachers twins (possible_teachers (courses twins ''C''))
   \<and> (1::int) \<le> 1 \<and> (1::int) \<le> 14
   \<and> available_names twins ''C'' 1 False = [''Bob'', ''Alice'']
   \<and> get_teacher_for_module twins ''C'' 1 False = Inr (Some ''Bob'')"
proof -
  have wf: "well_formed_teachers twins (possible_teachers (courses twins ''C''))"
    by code_simp
  have av: "available_names twins ''C'' 1 False = [''Bob'', ''Alice'']"
    by code_simp
  have eq: "rank_of twins 1 ''Alice'' = rank_of twins 1 ''Bob''"
    by code_simp
  from get_teacher_first_minimal [OF wf, of 1 False] av obtain pre best post where
    g: "get_teacher_for_module twins ''C'' 1 False = Inr (Some best)"
    and d: "[''Bob'', ''Alice''] = pre @ best # post"
    and lt: "\<forall>tn\<in>set pre. rank_of twins 1 best < rank_of twins 1 tn"
    by auto
  have "best = ''Bob''"
  proof (cases pre)
    case Nil
    with d show ?thesis by simp
  next
    case (Cons y ys)
    with d have "y = ''Bob''" and "best = ''Alice''"
      by (auto simp: Cons_eq_append_conv append_eq_Cons_conv)
    with lt Cons eq show ?thesis by simp
  qed
  with g wf av show ?thesis by simp
qed

section \<open>Claims about pass 1\<close>

text \<open>C1: for a triple that pass 1 processes successfully, the course afterwards has
  the triple's module as \<^verbatim>\<open>module_assigned\<close>, the triple's teacher as \<^verbatim>\<open>teacher_assigned\<close>
  and \<^verbatim>\<open>is_celebrity\<close> set (the names as \<^verbatim>\<open>strip\<close> leaves them).  The claim also wants the
  layer to be 0: pass 1 does not touch \<^verbatim>\<open>layer_assigned\<close>, which keeps the value it had
  (\<^verbatim>\<open>None\<close> for a course from the loaders), although \<^verbatim>\<open>assign_to_module\<close> sets the three
  fields together and pass 1 itself books the module at layer 0.\<close>

theorem pass1_leaves_layer_unset:
  assumes "pass1_row s (course_name, module_num, teacher_name) = Inr s'"
  shows "module_assigned (courses s' (strip course_name)) = Some module_num
       \<and> teacher_assigned (courses s' (strip course_name)) = Some (strip teacher_name)
       \<and> is_celebrity (courses s' (strip course_name))
       \<and> layer_assigned (courses s' (strip course_name))
           = layer_assigned (courses s (strip course_name))"
  using pass1_row_courses(1)[OF assms] by simp

theorem pass1_leaves_layer_unset_witness:
  "\<exists>s'. pass1_row scenario1 (''CS101'', 5, ''Alice'') = Inr s'
      \<and> module_assigned (courses s' ''CS101'') = Some 5
      \<and> teacher_assigned (courses s' ''CS101'') = Some ''Alice''
      \<and> is_celebrity (courses s' ''CS101'')
      \<and> layer_assigned (courses s' ''CS101'') = None"
proof -
  have "case pass1_row scenario1 (''CS101'', 5, ''Alice'') of Inl e \<Rightarrow> False | Inr s' \<Rightarrow> True"
    by code_simp
  then obtain s' where r: "pass1_row scenario1 (''CS101'', 5, ''Alice'') = Inr s'"
    by (auto split: sum.splits)
  have st: "strip ''CS101'' = ''CS101''" "strip ''Alice'' = ''Alice''"
    by code_simp+
  have l0: "layer_assigned (courses scenario1 ''CS101'') = None"
    by code_simp
  from pass1_leaves_layer_unset [OF r] have
    "module_assigned (courses s' ''CS101'') = Some 5
       \<and> teacher_assigned (courses s' ''CS101'') = Some ''Alice''
       \<and> is_celebrity (courses s' ''CS101'')
       \<and> layer_assigned (courses s' ''CS101'') = None"
    unfolding st l0 .
  with r show ?thesis by blast
qed

section \<open>Claims about the whole run\<close>

text \<open>C2, as stated: after every pass and for every input, also one in which a course
  fixed by pass 1 is itself chained, no module has \<^verbatim>\<open>has_celebrity_course\<close> set and a
  chained course among its courses.  \<^verbatim>\<open>can_accept\<close> and \<^verbatim>\<open>add_course\<close> look at the courses
  already in the module, not at the course that is added: pass 1 accepts a chained
  celebrity course, and its module then holds it under the flag.\<close>

theorem slot_exclusion_counterexample:
  "case pass1_celebrity chained_celebrity [(''CS101'', 5, ''Alice'')] of
     Inl e \<Rightarrow> False
   | Inr (n, s1) \<Rightarrow>
       n = 1 \<and> has_celebrity_course (modules s1 5)
     \<and> mcourses (modules s1 5) = [''CS101'']
     \<and> part_of_chain (courses s1 ''CS101'')
     \<and> \<not> claimed_slot_exclusion s1"
  by code_simp

text \<open>C2, amended: in a run from modules that \<^verbatim>\<open>build_modules\<close> built, after each pass that
  returns, in every module with \<^verbatim>\<open>has_celebrity_course\<close> set every chained course among
  the module's courses is itself a course fixed by pass 1: pass 2 and pass 3 never
  place a chained course into such a module.\<close>

theorem fixed_slots_hold_no_other_chained:
  assumes "fresh_modules s0" and "pass1_celebrity s0 celebrity_courses = Inr (n1, s1)"
  shows "fixed_slots_exclusive s1
       \<and> (\<forall>max_layers n2 s2. pass2_chains s1 max_layers = Inr (n2, s2) \<longrightarrow>
            fixed_slots_exclusive s2
          \<and> (\<forall>n3 s3. pass3_solitary s2 = Inr (n3, s3) \<longrightarrow> fixed_slots_exclusive s3))"
proof -
  from assms have i1: "fixed_slots_exclusive s1"
    unfolding pass1_celebrity_def
    by (auto intro: exclusive_pass1_loop fresh_modules_exclusive)
  have i2: "fixed_slots_exclusive s2"
    if "pass2_chains s1 max_layers = Inr (n2, s2)" for max_layers n2 s2
    using exclusive_reach[OF pass2_chains_reach[OF that] i1] .
  have i3: "fixed_slots_exclusive s3"
    if "pass2_chains s1 max_layers = Inr (n2, s2)" "pass3_solitary s2 = Inr (n3, s3)"
    for max_layers n2 s2 n3 s3
    using exclusive_reach[OF pass3_solitary_reach[OF that(2)] i2[OF that(1)]] .
  from i1 i2 i3 show ?thesis by blast
qed

theorem fixed_slots_hold_no_other_chained_witness:
  "fresh_modules chained_chain
   \<and> (\<exists>n1 s1 n2 s2 n3 s3.
         pass1_celebrity chained_chain [(''CS101'', 5, ''Alice'')] = Inr (n1, s1)
       \<and> pass2_chains s1 2 = Inr (n2, s2)
       \<and> pass3_solitary s2 = Inr (n3, s3)
       \<and> n2 = 1 \<and> module_assigned (courses s3 ''A'') = Some 1
       \<and> has_celebrity_course (modules s3 5) \<and> mcourses (modules s3 5) = [''CS101'']
       \<and> fixed_slots_exclusive s1 \<and> fixed_slots_exclusive s2 \<and> fixed_slots_exclusive s3)"
proof -
  have f: "fresh_modules chained_chain"
    by code_simp
  have "case pass1_celebrity chained_chain [(''CS101'', 5, ''Alice'')] of
          Inl e \<Rightarrow> False
        | Inr (n1, s1) \<Rightarrow>
            (case pass2_chains s1 2 of
               Inl e \<Rightarrow> False
             | Inr (n2, s2) \<Rightarrow>
                 (case pass3_solitary s2 of
                    Inl e \<Rightarrow> False
                  | Inr (n3, s3) \<Rightarrow>
                      n2 = 1 \<and> module_assigned (courses s3 ''A'') = Some 1
                    \<and> has_celebrity_course (modules s3 5)
                    \<and> mcourses (modules s3 5) = [''CS101'']))"
    by code_simp
  then obtain n1 s1 where
    p1: "pass1_celebrity chained_chain [(''CS101'', 5, ''Alice'')] = Inr (n1, s1)"
    and r2: "case pass2_chains s1 2 of
               Inl e \<Rightarrow> False
             | Inr (n2, s2) \<Rightarrow>
                 (case pass3_solitary s2 of
                    Inl e \<Rightarrow> False
                  | Inr (n3, s3) \<Rightarrow>
                      n2 = 1 \<and> module_assigned (courses s3 ''A'') = Some 1
                    \<and> has_celebrity_course (modules s3 5)
                    \<and> mcourses (modules s3 5) = [''CS101''])"
    by (rule run_caseE)
  from r2 obtain n2 s2 where p2: "pass2_chains s1 2 = Inr (n2, s2)"
    and r3: "case pass3_solitary s2 of
                    Inl e \<Rightarrow> False
                  | Inr (n3, s3) \<Rightarrow>
                      n2 = 1 \<and> module_assigned (courses s3 ''A'') = Some 1
                    \<and> has_celebrity_course (modules s3 5)
                    \<and> mcourses (modules s3 5) = [''CS101'']"
    by (rule run_caseE)
  from r3 obtain n3 s3 where p3: "pass3_solitary s2 = Inr (n3, s3)"
    and v: "n2 = 1 \<and> module_assigned (courses s3 ''A'') = Some 1
                    \<and> has_celebrity_course (modules s3 5)
                    \<and> mcourses (modules s3 5) = [''CS101'']"
    by (rule run_caseE)
  from fixed_slots_hold_no_other_chained [OF f p1] p2 p3 have
    "fixed_slots_exclusive s1" "fixed_slots_exclusive s2" "fixed_slots_exclusive s3"
    by blast+
  with f p1 p2 p3 v show ?thesis by blast
qed

text \<open>C3, as stated: after every pass, every assigned chained course, those of pass 1
  included, has all its prerequisites assigned at a smaller absolute index.  Pass 1
  checks no prerequisite: in scenario 3 the row \<open>(B, 1, Tina)\<close> is accepted while the
  prerequisite \<open>A\<close> of \<open>B\<close> is not assigned.\<close>

theorem chain_order_counterexample:
  "case pass1_celebrity scenario3 [(''B'', 1, ''Tina'')] of
     Inl e \<Rightarrow> False
   | Inr (n, s1) \<Rightarrow>
       n = 1 \<and> part_of_chain (courses s1 ''B'')
     \<and> module_assigned (courses s1 ''B'') = Some 1
     \<and> teacher_assigned (courses s1 ''B'') = Some ''Tina''
     \<and> prereqs (courses s1 ''B'') = [''A'']
     \<and> module_assigned (courses s1 ''A'') = None
     \<and> \<not> claimed_chain_order s1"
  by code_simp

text \<open>C3, amended: in a run from courses that the loaders built, after each pass that
  returns, every course that pass 2 or pass 3 has placed (assigned and no celebrity;
  chained or not) has a layer and a module, each of its prerequisites is a course
  with a layer and a module, and the prerequisite's \<^verbatim>\<open>layer * 14 + module\<close> is strictly
  below the course's own.  Nothing is said about the courses that pass 1 fixes.\<close>

theorem chain_order_after_passes:
  assumes "fresh s0" and "pass1_celebrity s0 celebrity_courses = Inr (n1, s1)"
  shows "placed_units_ordered s1
       \<and> (\<forall>max_layers n2 s2. pass2_chains s1 max_layers = Inr (n2, s2) \<longrightarrow>
            placed_units_ordered s2
          \<and> (\<forall>n3 s3. pass3_solitary s2 = Inr (n3, s3) \<longrightarrow> placed_units_ordered s3))"
proof -
  from assms have i1: "placement_inv s1"
    unfolding pass1_celebrity_def
    by (auto intro: placement_inv_pass1_loop fresh_placement_inv)
  have i2: "placement_inv s2" if "pass2_chains s1 max_layers = Inr (n2, s2)" for max_layers n2 s2
    using placement_inv_reach[OF pass2_chains_reach[OF that] i1] .
  have i3: "placement_inv s3"
    if "pass2_chains s1 max_layers = Inr (n2, s2)" "pass3_solitary s2 = Inr (n3, s3)"
    for max_layers n2 s2 n3 s3
    using placement_inv_reach[OF pass3_solitary_reach[OF that(2)] i2[OF that(1)]] .
  from i1 i2 i3 show ?thesis by (blast intro: placement_inv_ordered)
qed

theorem chain_order_after_passes_witness:
  "fresh scenario3
   \<and> (\<exists>n1 s1 n2 s2 n3 s3.
         pass1_celebrity scenario3 [] = Inr (n1, s1)
       \<and> pass2_chains s1 2 = Inr (n2, s2)
       \<and> pass3_solitary s2 = Inr (n3, s3)
       \<and> n2 = 2
       \<and> module_assigned (courses s3 ''A'') = Some 1 \<and> layer_assigned (courses s3 ''A'') = Some 0
       \<and> module_assigned (courses s3 ''B'') = Some 2 \<and> layer_assigned (courses s3 ''B'') = Some 0
       \<and> placed_units_ordered s1 \<and> placed_units_ordered s2 \<and> placed_units_ordered s3)"
proof -
  have f: "fresh scenario3"
    by code_simp
  have "case pass1_celebrity scenario3 [] of
          Inl e \<Rightarrow> False
        | Inr (n1, s1) \<Rightarrow>
            (case pass2_chains s1 2 of
               Inl e \<Rightarrow> False
             | Inr (n2, s2) \<Rightarrow>
                 (case pass3_solitary s2 of
                    Inl e \<Rightarrow> False
                  | Inr (n3, s3) \<Rightarrow>
                      n2 = 2
                    \<and> module_assigned (courses s3 ''A'') = Some 1
                    \<and> layer_assigned (courses s3 ''A'') = Some 0
                    \<and> module_assigned (courses s3 ''B'') = Some 2
                    \<and> layer_assigned (courses s3 ''B'') = Some 0))"
    by code_simp
  then obtain n1 s1 where p1: "pass1_celebrity scenario3 [] = Inr (n1, s1)"
    and r2: "case pass2_chains s1 2 of
               Inl e \<Rightarrow> False
             | Inr (n2, s2) \<Rightarrow>
                 (case pass3_solitary s2 of
                    Inl e \<Rightarrow> False
                  | Inr (n3, s3) \<Rightarrow>
                      n2 = 2
                    \<and> module_assigned (courses s3 ''A'') = Some 1
                    \<and> layer_assigned (courses s3 ''A'') = Some 0
                    \<and> module_assigned (courses s3 ''B'') = Some 2
                    \<and> layer_assigned (courses s3 ''B'') = Some 0)"
    by (rule run_caseE)
  from r2 obtain n2 s2 where p2: "pass2_chains s1 2 = Inr (n2, s2)"
    and r3: "case pass3_solitary s2 of
                    Inl e \<Rightarrow> False
                  | Inr (n3, s3) \<Rightarrow>
                      n2 = 2
                    \<and> module_assigned (courses s3 ''A'') = Some 1
                    \<and> layer_assigned (courses s3 ''A'') = Some 0
                    \<and> module_assigned (courses s3 ''B'') = Some 2
                    \<and> layer_assigned (courses s3 ''B'') = Some 0"
    by (rule run_caseE)
  from r3 obtain n3 s3 where p3: "pass3_solitary s2 = Inr (n3, s3)"
    and v: "n2 = 2
                    \<and> module_assigned (courses s3 ''A'') = Some 1
                    \<and> layer_assigned (courses s3 ''A'') = Some 0
                    \<and> module_assigned (courses s3 ''B'') = Some 2
                    \<and> layer_assigned (courses s3 ''B'') = Some 0"
    by (rule run_caseE)
  from chain_order_after_passes [OF f p1] p2 p3 have
    "placed_units_ordered s1" "placed_units_ordered s2" "placed_units_ordered s3"
    by blast+
  with f p1 p2 p3 v show ?thesis by blast
qed

text \<open>C9: a course that has a course fixed by pass 1 among its prerequisites is never
  assigned by pass 2 or pass 3.  A course fixed by pass 1 has no layer, so
  \<^verbatim>\<open>can_be_assigned_to_module\<close> on the dependent course never returns true (it returns
  false; only a prerequisite name missing from the dictionary makes it raise
  instead), and the record of the dependent course is after pass 2 and after pass 3
  what it was after pass 1.\<close>

theorem celebrity_prereq_blocks_unit:
  assumes "fresh s0" and "pass1_celebrity s0 celebrity_courses = Inr (n1, s1)"
    and "p \<in> set (course_keys s1)" and "is_celebrity (courses s1 p)"
    and "p \<in> set (prereqs (courses s1 u))"
  shows "never_assignable s1 u
       \<and> (\<forall>max_layers n2 s2. pass2_chains s1 max_layers = Inr (n2, s2) \<longrightarrow>
            courses s2 u = courses s1 u \<and> never_assignable s2 u
          \<and> (\<forall>n3 s3. pass3_solitary s2 = Inr (n3, s3) \<longrightarrow>
                courses s3 u = courses s1 u \<and> never_assignable s3 u))"
proof -
  from assms(1,2) have i1: "placement_inv s1"
    unfolding pass1_celebrity_def
    by (auto intro: placement_inv_pass1_loop fresh_placement_inv)
  from i1 assms(3) have "well_placed s1 p" by (simp add: placement_inv_def list_all_iff)
  with assms(4) have lay: "layer_assigned (courses s1 p) = None"
    and md: "module_assigned (courses s1 p) \<noteq> None"
    by (auto simp: well_placed_def split: option.splits)
  note n1 = never_assignable_behind_celebrity[OF i1 assms(5) lay]
  have step2: "courses s2 u = courses s1 u \<and> courses s2 p = courses s1 p \<and> placement_inv s2"
    if "pass2_chains s1 max_layers = Inr (n2, s2)" for max_layers n2 s2
    using blocked_reach[OF pass2_chains_reach[OF that] assms(5) lay md]
      placement_inv_reach[OF pass2_chains_reach[OF that] i1] by simp
  have step3: "courses s3 u = courses s1 u \<and> courses s3 p = courses s1 p \<and> placement_inv s3"
    if "pass2_chains s1 max_layers = Inr (n2, s2)" "pass3_solitary s2 = Inr (n3, s3)"
    for max_layers n2 s2 n3 s3
  proof -
    note a = step2[OF that(1)]
    from a assms(5) lay md have "p \<in> set (prereqs (courses s2 u))"
      "layer_assigned (courses s2 p) = None" "module_assigned (courses s2 p) \<noteq> None"
      by simp_all
    from blocked_reach[OF pass3_solitary_reach[OF that(2)] this]
      placement_inv_reach[OF pass3_solitary_reach[OF that(2)]] a
    show ?thesis by simp
  qed
  have na: "never_assignable s u"
    if "courses s u = courses s1 u \<and> courses s p = courses s1 p \<and> placement_inv s" for s
    using that assms(5) lay by (intro never_assignable_behind_celebrity[of s p u]) simp_all
  from n1 step2 step3 na show ?thesis by blast
qed

theorem celebrity_prereq_blocks_unit_witness:
  "fresh behind_celebrity
   \<and> (\<exists>n1 s1 n2 s2 n3 s3.
         pass1_celebrity behind_celebrity [(''CS101'', 5, ''Alice'')] = Inr (n1, s1)
       \<and> ''CS101'' \<in> set (course_keys s1) \<and> is_celebrity (courses s1 ''CS101'')
       \<and> ''CS101'' \<in> set (prereqs (courses s1 ''U''))
       \<and> pass2_chains s1 2 = Inr (n2, s2)
       \<and> pass3_solitary s2 = Inr (n3, s3)
       \<and> module_assigned (courses s1 ''U'') = None
       \<and> never_assignable s1 ''U''
       \<and> courses s2 ''U'' = courses s1 ''U''
       \<and> courses s3 ''U'' = courses s1 ''U''
       \<and> module_assigned (courses s3 ''U'') = None)"
proof -
  have f: "fresh behind_celebrity"
    by code_simp
  have "case pass1_celebrity behind_celebrity [(''CS101'', 5, ''Alice'')] of
          Inl e \<Rightarrow> False
        | Inr (n1, s1) \<Rightarrow>
            ''CS101'' \<in> set (course_keys s1) \<and> is_celebrity (courses s1 ''CS101'')
          \<and> ''CS101'' \<in> set (prereqs (courses s1 ''U''))
          \<and> module_assigned (courses s1 ''U'') = None
          \<and> (case pass2_chains s1 2 of
               Inl e \<Rightarrow> False
             | Inr (n2, s2) \<Rightarrow>
                 (case pass3_solitary s2 of
                    Inl e \<Rightarrow> False
                  | Inr (n3, s3) \<Rightarrow> True))"
    by code_simp
  then obtain n1 s1 where
    p1: "pass1_celebrity behind_celebrity [(''CS101'', 5, ''Alice'')] = Inr (n1, s1)"
    and r1: "''CS101'' \<in> set (course_keys s1) \<and> is_celebrity (courses s1 ''CS101'')
          \<and> ''CS101'' \<in> set (prereqs (courses s1 ''U''))
          \<and> module_assigned (courses s1 ''U'') = None
          \<and> (case pass2_chains s1 2 of
               Inl e \<Rightarrow> False
             | Inr (n2, s2) \<Rightarrow>
                 (case pass3_solitary s2 of
                    Inl e \<Rightarrow> False
                  | Inr (n3, s3) \<Rightarrow> True))"
    by (rule run_caseE)
  from r1 have h: "''CS101'' \<in> set (course_keys s1)" "is_celebrity (courses s1 ''CS101'')"
      "''CS101'' \<in> set (prereqs (courses s1 ''U''))"
    and u: "module_assigned (courses s1 ''U'') = None"
    and r2: "case pass2_chains s1 2 of
               Inl e \<Rightarrow> False
             | Inr (n2, s2) \<Rightarrow>
                 (case pass3_solitary s2 of
                    Inl e \<Rightarrow> False
                  | Inr (n3, s3) \<Rightarrow> True)"
    by blast+
  from r2 obtain n2 s2 where p2: "pass2_chains s1 2 = Inr (n2, s2)"
    and r3: "case pass3_solitary s2 of
                    Inl e \<Rightarrow> False
                  | Inr (n3, s3) \<Rightarrow> True"
    by (rule run_caseE)
  from r3 obtain n3 s3 where p3: "pass3_solitary s2 = Inr (n3, s3)"
    by (rule run_caseE)
  from celebrity_prereq_blocks_unit [OF f p1 h] p2 p3 have
    "never_assignable s1 ''U''" "courses s2 ''U'' = courses s1 ''U''"
    "courses s3 ''U'' = courses s1 ''U''"
    by blast+
  with f p1 h u p2 p3 show ?thesis by auto
qed

text \<open>C10: a course with \<^verbatim>\<open>min_layer\<close> at least 1 that is not assigned when pass 3 starts
  is not assigned when pass 3 returns.  Pass 3 only tries layer 0, where
  \<^verbatim>\<open>can_be_assigned_to_module\<close> returns false for the course and \<^verbatim>\<open>assign_to_module\<close>
  returns false and changes nothing; the record of the course stays as it was.\<close>

theorem pass3_skips_min_layer_units:
  assumes "pass3_solitary s = Inr (n, s')"
    and "1 \<le> min_layer (courses s u)" and "module_assigned (courses s u) = None"
  shows "module_assigned (courses s' u) = None \<and> courses s' u = courses s u
       \<and> (\<forall>mnum strict. can_be_assigned_to_module s u mnum 0 strict = Inr False
                       \<and> assign_to_module s u mnum 0 strict = Inr (False, s))"
proof -
  from min_layer_reach[OF pass3_solitary_reach[OF assms(1)] assms(2)]
  have "courses s' u = courses s u" .
  moreover from assms(2,3) have "can_be_assigned_to_module s u mnum 0 strict = Inr False"
    for mnum strict by (simp add: can_be_assigned_to_module_def)
  ultimately show ?thesis using assms(3) by (simp add: assign_to_module_def)
qed

theorem pass3_skips_min_layer_units_witness:
  "\<exists>n s'. pass3_solitary late_layer = Inr (n, s')
      \<and> 1 \<le> min_layer (courses late_layer ''U'')
      \<and> module_assigned (courses late_layer ''U'') = None
      \<and> module_assigned (courses s' ''U'') = None
      \<and> n = 1 \<and> module_assigned (courses s' ''D'') = Some 1"
proof -
  have "case pass3_solitary late_layer of
          Inl e \<Rightarrow> False
        | Inr (n, s') \<Rightarrow> n = 1 \<and> module_assigned (courses s' ''D'') = Some 1"
    by code_simp
  then obtain n s' where r: "pass3_solitary late_layer = Inr (n, s')"
    and v: "n = 1 \<and> module_assigned (courses s' ''D'') = Some 1"
    by (rule run_caseE)
  have m: "1 \<le> min_layer (courses late_layer ''U'')"
    by code_simp
  have u: "module_assigned (courses late_layer ''U'') = None"
    by code_simp
  from pass3_skips_min_layer_units [OF r m u] have "module_assigned (courses s' ''U'') = None"
    by blast
  with r m u v show ?thesis by blast
qed

end
